theory Spec2Isabelle
  imports Main
begin

section \<open>RateLimiter (src/index.ts, class RateLimiter)\<close>

text \<open>
  The durable object keeps \<^verbatim>\<open>requests: Map<string, number[]>\<close>: for each key the
  millisecond timestamps of the admitted requests, oldest first. \<^verbatim>\<open>Date.now()\<close> is an
  integer number of milliseconds, modelled as \<open>int\<close>. The clock is read twice during one
  \<^verbatim>\<open>fetch\<close>: once inside \<^verbatim>\<open>cleanOldEntries\<close> and once in \<^verbatim>\<open>fetch\<close> itself, so the model
  takes both readings as arguments.
\<close>

type_synonym rate_window = "string \<rightharpoonup> int list"

text \<open>\<^verbatim>\<open>requests.filter(timestamp => now - timestamp < 60000)\<close>, used by both methods.\<close>

definition filter_recent :: "int \<Rightarrow> int list \<Rightarrow> int list" where
  "filter_recent now requests = filter (\<lambda>timestamp. now - timestamp < 60000) requests"

text \<open>
  \<^verbatim>\<open>cleanOldEntries\<close>: every entry is replaced by its recent part, and deleted when that
  part is empty.
\<close>

definition cleanOldEntries :: "int \<Rightarrow> rate_window \<Rightarrow> rate_window" where
  "cleanOldEntries now requests =
     (\<lambda>key. case requests key of
        None \<Rightarrow> None
      | Some ts \<Rightarrow>
          (let filtered = filter_recent now ts
           in if length filtered = 0 then None else Some filtered))"

text \<open>\<^verbatim>\<open>this.requests.get(key) || []\<close>: an absent key reads as the empty list.\<close>

definition get_requests :: "rate_window \<Rightarrow> string \<Rightarrow> int list" where
  "get_requests requests key = (case requests key of None \<Rightarrow> [] | Some ts \<Rightarrow> ts)"

text \<open>
  \<^verbatim>\<open>fetch\<close>: the result is the HTTP status of the response (200 or 429) and the map
  after the call. \<open>key\<close> is the path of the request's URL, \<open>now_clean\<close> the clock
  reading taken by \<^verbatim>\<open>cleanOldEntries\<close>, \<open>now\<close> the one taken afterwards by \<^verbatim>\<open>fetch\<close>.
\<close>

definition fetch :: "int \<Rightarrow> int \<Rightarrow> string \<Rightarrow> rate_window \<Rightarrow> nat \<times> rate_window" where
  "fetch now_clean now key requests0 =
     (let requests = cleanOldEntries now_clean requests0;
          recentRequests = filter_recent now (get_requests requests key)
      in if length recentRequests \<ge> 60 then (429, requests)
         else (200, requests(key \<mapsto> recentRequests @ [now])))"

text \<open>
  A sequence of calls to the same durable object with the same key, each with its two
  clock readings; the statuses are collected in order.
\<close>

fun fetch_seq :: "string \<Rightarrow> (int \<times> int) list \<Rightarrow> rate_window \<Rightarrow> nat list \<times> rate_window" where
  "fetch_seq key [] requests = ([], requests)"
| "fetch_seq key (c # cs) requests =
     (let r = fetch (fst c) (snd c) key requests;
          rs = fetch_seq key cs (snd r)
      in (fst r # fst rs, snd rs))"

section \<open>Data model (src/index.ts, interfaces User, Comment, Site; the SQL schema)\<close>

text \<open>
  Rows of the D1 tables, with the columns that the modelled handlers read or write.
  Timestamps are written by \<^verbatim>\<open>new Date().toISOString()\<close>; a stored timestamp is modelled
  by the instant it denotes, in milliseconds. \<open>u_created_at\<close> is the value of
  \<^verbatim>\<open>new Date(user.created_at).getTime()\<close>, with \<open>None\<close> for a text that does not parse
  (\<^verbatim>\<open>NaN\<close>). The fields carry a prefix, since record fields share one name space.
\<close>

record user =
  u_id :: nat
  u_email :: string
  u_name :: string
  u_email_notifications :: bool
  u_created_at :: "int option"
  u_last_login :: "int option"
  u_is_banned :: bool
  u_reputation :: int

record site =
  s_id :: nat
  s_user_id :: nat
  s_name :: string
  s_api_key :: string
  s_webhook_url :: "string option"
  s_moderation_enabled :: bool
  s_auto_approve_threshold :: int
  s_spam_filter_enabled :: bool
  s_require_auth :: bool
  s_total_comments :: int

datatype comment_status = Pending | Approved | Spam | Deleted

record comment =
  c_id :: nat
  c_site_id :: nat
  c_post_slug :: string
  c_post_title :: "string option"
  c_user_id :: nat
  c_parent_id :: "nat option"
  c_content :: string
  c_status :: comment_status
  c_spam_score :: int
  c_ip_address :: string
  c_user_agent :: string
  c_created_at :: int
  c_updated_at :: int
  c_likes :: int
  c_flags :: int

record like_row =
  l_comment_id :: nat
  l_user_id :: nat
  l_created_at :: int

record flag_row =
  f_comment_id :: nat
  f_user_id :: nat
  f_reason :: string
  f_created_at :: int

text \<open>The object built in the webhook branch of the comment handler.\<close>

record webhook_data =
  w_event :: string
  w_comment_id :: nat
  w_content :: string
  w_status :: comment_status
  w_author_name :: string
  w_author_email :: string
  w_post_slug :: string
  w_post_title :: "string option"
  w_timestamp :: int

text \<open>The two kinds of message that the comment handler sends to \<^verbatim>\<open>EMAIL_QUEUE\<close>.\<close>

datatype queue_message =
  Webhook string webhook_data string
| NewComment string string string string string

text \<open>
  The state outside a request: the tables and the queue. \<open>comments_seq\<close> is the
  \<^verbatim>\<open>AUTOINCREMENT\<close> counter of the comments table: the largest id handed out so far.
\<close>

record state =
  users :: "user list"
  sites :: "site list"
  comments :: "comment list"
  comments_seq :: nat
  comment_likes :: "like_row list"
  comment_flags :: "flag_row list"
  email_queue :: "queue_message list"

text \<open>
  The bindings of \<^verbatim>\<open>Env\<close> that the handlers use, and the two library calls whose code
  is not part of the repository: \<^verbatim>\<open>jwt.verify(token, secret)\<close>, which yields the
  payload's \<^verbatim>\<open>sub\<close> or throws (\<open>None\<close>), and the base64 text of the SHA-256 digest of
  \<^verbatim>\<open>JSON.stringify(webhookData) + secret\<close>.
\<close>

record env =
  JWT_SECRET :: string
  WEBHOOK_SECRET :: "string option"
  RESEND_API_KEY :: "string option"
  jwt_verify :: "string \<Rightarrow> string \<Rightarrow> nat option"
  digest_base64 :: "webhook_data \<Rightarrow> string \<Rightarrow> string"

datatype response_body =
  Error string
| CommentPosted comment_status string
| Liked bool
| Success

text \<open>
  A response: \<^verbatim>\<open>c.json(body, status)\<close>, \<^verbatim>\<open>c.redirect\<close> to the login page (with the
  URL to come back to, when one is given), or the 500 answer to an exception that a
  handler does not catch.
\<close>

datatype response =
  Json nat response_body
| RedirectLogin "string option"
| InternalServerError

text \<open>
  JavaScript truthiness of an optional string (\<^verbatim>\<open>!token\<close>, \<^verbatim>\<open>site.webhook_url && ...\<close>):
  \<^verbatim>\<open>undefined\<close>, \<^verbatim>\<open>null\<close> and the empty string are falsy.
\<close>

definition truthy :: "string option \<Rightarrow> bool" where
  "truthy s = (case s of None \<Rightarrow> False | Some v \<Rightarrow> v \<noteq> [])"

text \<open>The value of a truthy optional string, \<open>None\<close> for a falsy one.\<close>

definition truthy_value :: "string option \<Rightarrow> string option" where
  "truthy_value s = (if truthy s then s else None)"

section \<open>Spam scorer (src/index.ts, calculateSpamScore)\<close>

text \<open>
  The content is a string of characters with codes below 256. The four patterns of
  \<^verbatim>\<open>spamPatterns\<close> and the link pattern only tell apart ASCII letters, digits, the
  underscore and white space, so each is modelled by a matcher written for it: given the
  character before the position (for \<^verbatim>\<open>\b\<close>) and the rest of the string from the
  position on, the matcher yields the length of the match that starts there, if there is
  one.

  \<^verbatim>\<open>[A-Z]\<close>, \<^verbatim>\<open>\w\<close> and \<^verbatim>\<open>\s\<close> (within the codes below 256: tab, line feed, vertical
  tab, form feed, carriage return, space, no-break space):
\<close>

definition is_upper :: "char \<Rightarrow> bool" where
  "is_upper c = (c \<in> set ''ABCDEFGHIJKLMNOPQRSTUVWXYZ'')"

definition is_word_char :: "char \<Rightarrow> bool" where
  "is_word_char c =
     (c \<in> set ''abcdefghijklmnopqrstuvwxyzABCDEFGHIJKLMNOPQRSTUVWXYZ0123456789_'')"

definition is_space_char :: "char \<Rightarrow> bool" where
  "is_space_char c =
     (c \<in> set [CHR 0x09, CHR 0x0A, CHR 0x0B, CHR 0x0C, CHR 0x0D, CHR 0x20, CHR 0xA0])"

text \<open>
  Case folding of the \<^verbatim>\<open>i\<close> flag (without \<^verbatim>\<open>u\<close>): a character is compared by its
  upper-case form. The patterns contain only ASCII letters and the space, and no
  character outside ASCII folds to an ASCII letter, so folding the ASCII lower-case
  letters is enough.
\<close>

definition canonicalize :: "char \<Rightarrow> char" where
  "canonicalize c =
     (case map_of (zip ''abcdefghijklmnopqrstuvwxyz'' ''ABCDEFGHIJKLMNOPQRSTUVWXYZ'') c of
        None \<Rightarrow> c | Some u \<Rightarrow> u)"

text \<open>
  \<^verbatim>\<open>\b\<close>: exactly one of the character before the position and the character at the
  position is a word character; the start and the end of the string count as non-word.
\<close>

definition word_boundary :: "char option \<Rightarrow> string \<Rightarrow> bool" where
  "word_boundary prev rest =
     ((case prev of None \<Rightarrow> False | Some p \<Rightarrow> is_word_char p)
      \<noteq> (case rest of [] \<Rightarrow> False | c # _ \<Rightarrow> is_word_char c))"

text \<open>A literal at the start of the string, ignoring case or not; the result is the rest.\<close>

fun match_literal :: "bool \<Rightarrow> string \<Rightarrow> string \<Rightarrow> string option" where
  "match_literal ci [] s = Some s"
| "match_literal ci (p # ps) [] = None"
| "match_literal ci (p # ps) (c # cs) =
     (if (if ci then canonicalize c = canonicalize p else c = p)
      then match_literal ci ps cs else None)"

text \<open>
  \<^verbatim>\<open>(w1|w2|...)\b\<close> with the \<^verbatim>\<open>i\<close> flag: the alternatives are tried in order, and an
  alternative that matches but is not followed by a word boundary is given up for the
  next one.
\<close>

fun match_alternatives :: "string list \<Rightarrow> string \<Rightarrow> nat option" where
  "match_alternatives [] s = None"
| "match_alternatives (w # ws) s =
     (case match_literal True w s of
        None \<Rightarrow> match_alternatives ws s
      | Some rest \<Rightarrow>
          if word_boundary (Some (last (take (length w) s))) rest then Some (length w)
          else match_alternatives ws s)"

text \<open>\<^verbatim>\<open>/\b(w1|w2|...)\b/gi\<close> at one position.\<close>

definition match_words :: "string list \<Rightarrow> char option \<Rightarrow> string \<Rightarrow> nat option" where
  "match_words alts prev s = (if word_boundary prev s then match_alternatives alts s else None)"

text \<open>
  \<^verbatim>\<open>https?:\/\/\<close> at the start of the string: the optional \<^verbatim>\<open>s\<close> is taken first, and
  left out when the rest does not match with it. The result is the rest of the string.
\<close>

definition match_scheme :: "string \<Rightarrow> string option" where
  "match_scheme s =
     (case match_literal False ''http'' s of
        None \<Rightarrow> None
      | Some r \<Rightarrow>
          (case (case r of [] \<Rightarrow> None
                 | c # r' \<Rightarrow> if c = CHR ''s'' then match_literal False ''://'' r' else None) of
             Some r'' \<Rightarrow> Some r''
           | None \<Rightarrow> match_literal False ''://'' r))"

text \<open>\<^verbatim>\<open>/https?:\/\//g\<close> at one position (the pattern of \<^verbatim>\<open>linkCount\<close>).\<close>

definition match_link :: "char option \<Rightarrow> string \<Rightarrow> nat option" where
  "match_link prev s =
     (case match_scheme s of None \<Rightarrow> None | Some r \<Rightarrow> Some (length s - length r))"

text \<open>
  \<^verbatim>\<open>/https?:\/\/[^\s]+/g\<close> at one position: the scheme, then the longest run of
  characters that are not white space, which must not be empty.
\<close>

definition match_url :: "char option \<Rightarrow> string \<Rightarrow> nat option" where
  "match_url prev s =
     (case match_scheme s of
        None \<Rightarrow> None
      | Some r \<Rightarrow>
          (let run = takeWhile (\<lambda>c. \<not> is_space_char c) r
           in if run = [] then None else Some (length s - length r + length run)))"

text \<open>
  \<^verbatim>\<open>/\b[A-Z]{5,}\b/g\<close> at one position: after a word boundary, the longest run of
  capitals is tried first, then every shorter one down to five, until one ends at a
  word boundary.
\<close>

definition match_caps :: "char option \<Rightarrow> string \<Rightarrow> nat option" where
  "match_caps prev s =
     (if word_boundary prev s
      then find (\<lambda>k. word_boundary (Some (s ! (k - 1))) (drop k s))
             (rev [5 ..< Suc (length (takeWhile is_upper s))])
      else None)"

text \<open>
  \<^verbatim>\<open>content.match(pattern)\<close> with the \<^verbatim>\<open>g\<close> flag returns all matches found from left to
  right, each search starting where the previous match ended (one character further
  after an empty match); only their number is used. \<open>skip\<close> counts the characters that
  still belong to the previous match, \<open>prev\<close> is the character before the position.
\<close>

fun count_matches ::
  "(char option \<Rightarrow> string \<Rightarrow> nat option) \<Rightarrow> nat \<Rightarrow> char option \<Rightarrow> string \<Rightarrow> nat" where
  "count_matches m skip prev [] =
     (if skip = 0 then (case m prev [] of None \<Rightarrow> 0 | Some n \<Rightarrow> 1) else 0)"
| "count_matches m skip prev (c # cs) =
     (if skip > 0 then count_matches m (skip - 1) (Some c) cs
      else (case m prev (c # cs) of
              None \<Rightarrow> count_matches m 0 (Some c) cs
            | Some n \<Rightarrow> 1 + count_matches m (n - 1) (Some c) cs))"

definition match_count :: "(char option \<Rightarrow> string \<Rightarrow> nat option) \<Rightarrow> string \<Rightarrow> nat" where
  "match_count m content = count_matches m 0 None content"

text \<open>The first two entries of \<^verbatim>\<open>spamPatterns\<close>, then the whole array.\<close>

definition match_vocabulary :: "char option \<Rightarrow> string \<Rightarrow> nat option" where
  "match_vocabulary =
     match_words [''viagra'', ''cialis'', ''casino'', ''poker'', ''loan'', ''mortgage'']"

definition match_phrases :: "char option \<Rightarrow> string \<Rightarrow> nat option" where
  "match_phrases = match_words [''click here'', ''buy now'', ''limited offer'', ''act now'']"

definition spamPatterns :: "(char option \<Rightarrow> string \<Rightarrow> nat option) list" where
  "spamPatterns = [match_vocabulary, match_phrases, match_url, match_caps]"

text \<open>
  \<^verbatim>\<open>calculateSpamScore\<close>. \<open>now\<close> is the value of \<^verbatim>\<open>Date.now()\<close> when the function
  runs. The test \<^verbatim>\<open>accountAge < 24 * 60 * 60 * 1000\<close> comes first: a comparison with
  \<^verbatim>\<open>NaN\<close> is false, so an account whose creation time does not parse is not counted as
  new.
\<close>

definition accountAge_below_day :: "int \<Rightarrow> user \<Rightarrow> bool" where
  "accountAge_below_day now user =
     (case u_created_at user of
        None \<Rightarrow> False
      | Some created \<Rightarrow> now - created < 24 * 60 * 60 * 1000)"

definition calculateSpamScore :: "int \<Rightarrow> string \<Rightarrow> user \<Rightarrow> int" where
  "calculateSpamScore now content user =
     (let score = fold (\<lambda>pattern score. score + int (match_count pattern content) * 10)
                    spamPatterns 0;
          score = (if accountAge_below_day now user then score + 20 else score);
          score = (if u_reputation user < 10 then score + 15 else score);
          linkCount = int (match_count match_link content);
          score = (if linkCount > 2 then score + linkCount * 15 else score)
      in min score 100)"

section \<open>Storage primitives\<close>

text \<open>
  The SQL statements of the handlers, on the tables as lists of rows. An
  \<^verbatim>\<open>UPDATE ... WHERE id = ?\<close> changes every row with that id, a
  \<^verbatim>\<open>SELECT ... .first()\<close> yields the first matching row or \<^verbatim>\<open>null\<close>.
\<close>

definition update_users :: "nat \<Rightarrow> (user \<Rightarrow> user) \<Rightarrow> state \<Rightarrow> state" where
  "update_users uid f st = st\<lparr>users := map (\<lambda>u. if u_id u = uid then f u else u) (users st)\<rparr>"

definition update_sites :: "nat \<Rightarrow> (site \<Rightarrow> site) \<Rightarrow> state \<Rightarrow> state" where
  "update_sites sid f st = st\<lparr>sites := map (\<lambda>s. if s_id s = sid then f s else s) (sites st)\<rparr>"

definition update_comments :: "nat \<Rightarrow> (comment \<Rightarrow> comment) \<Rightarrow> state \<Rightarrow> state" where
  "update_comments cid f st =
     st\<lparr>comments := map (\<lambda>c. if c_id c = cid then f c else c) (comments st)\<rparr>"

definition select_user :: "state \<Rightarrow> nat \<Rightarrow> user option" where
  "select_user st uid = find (\<lambda>u. u_id u = uid) (users st)"

definition select_active_user :: "state \<Rightarrow> nat \<Rightarrow> user option" where
  \<comment> \<open>\<^verbatim>\<open>SELECT * FROM users WHERE id = ? AND is_banned = 0\<close>\<close>
  "select_active_user st uid = find (\<lambda>u. u_id u = uid \<and> \<not> u_is_banned u) (users st)"

definition select_site_by_key :: "state \<Rightarrow> string \<Rightarrow> site option" where
  \<comment> \<open>\<^verbatim>\<open>SELECT * FROM sites WHERE api_key = ?\<close>\<close>
  "select_site_by_key st k = find (\<lambda>s. s_api_key s = k) (sites st)"

definition select_site :: "state \<Rightarrow> nat \<Rightarrow> site option" where
  "select_site st sid = find (\<lambda>s. s_id s = sid) (sites st)"

definition select_comment :: "state \<Rightarrow> nat \<Rightarrow> comment option" where
  "select_comment st cid = find (\<lambda>c. c_id c = cid) (comments st)"

definition select_like :: "state \<Rightarrow> nat \<Rightarrow> nat \<Rightarrow> like_row option" where
  \<comment> \<open>\<^verbatim>\<open>SELECT id FROM comment_likes WHERE comment_id = ? AND user_id = ?\<close>\<close>
  "select_like st cid uid =
     find (\<lambda>l. l_comment_id l = cid \<and> l_user_id l = uid) (comment_likes st)"

definition select_flag :: "state \<Rightarrow> nat \<Rightarrow> nat \<Rightarrow> flag_row option" where
  \<comment> \<open>\<^verbatim>\<open>SELECT id FROM comment_flags WHERE comment_id = ? AND user_id = ?\<close>\<close>
  "select_flag st cid uid =
     find (\<lambda>f. f_comment_id f = cid \<and> f_user_id f = uid) (comment_flags st)"

text \<open>
  The owner of a site:
  \<^verbatim>\<open>SELECT u.* FROM users u JOIN sites s ON u.id = s.user_id WHERE s.id = ?\<close>.
\<close>

definition select_site_owner :: "state \<Rightarrow> nat \<Rightarrow> user option" where
  "select_site_owner st sid =
     (case select_site st sid of None \<Rightarrow> None | Some s \<Rightarrow> select_user st (s_user_id s))"

text \<open>
  The inserts can fail: D1 enforces the foreign keys of the schema, and
  \<^verbatim>\<open>comment_likes\<close> has \<^verbatim>\<open>UNIQUE(comment_id, user_id)\<close> (\<^verbatim>\<open>comment_flags\<close> has no such
  constraint). A failed insert throws, which is \<open>None\<close> here. The new comment gets the
  next id of the \<^verbatim>\<open>AUTOINCREMENT\<close> counter, returned as \<^verbatim>\<open>last_row_id\<close>.
\<close>

definition insert_comment :: "comment \<Rightarrow> state \<Rightarrow> (nat \<times> state) option" where
  "insert_comment row st =
     (if select_site st (c_site_id row) \<noteq> None \<and> select_user st (c_user_id row) \<noteq> None \<and>
         (case c_parent_id row of None \<Rightarrow> True | Some p \<Rightarrow> select_comment st p \<noteq> None)
      then (let new_id = Suc (comments_seq st)
            in Some (new_id, st\<lparr>comments := comments st @ [row\<lparr>c_id := new_id\<rparr>],
                                comments_seq := new_id\<rparr>))
      else None)"

definition insert_like :: "like_row \<Rightarrow> state \<Rightarrow> state option" where
  "insert_like row st =
     (if select_comment st (l_comment_id row) \<noteq> None \<and> select_user st (l_user_id row) \<noteq> None \<and>
         select_like st (l_comment_id row) (l_user_id row) = None
      then Some (st\<lparr>comment_likes := comment_likes st @ [row]\<rparr>)
      else None)"

definition insert_flag :: "flag_row \<Rightarrow> state \<Rightarrow> state option" where
  "insert_flag row st =
     (if select_comment st (f_comment_id row) \<noteq> None \<and> select_user st (f_user_id row) \<noteq> None
      then Some (st\<lparr>comment_flags := comment_flags st @ [row]\<rparr>)
      else None)"

definition delete_like :: "nat \<Rightarrow> nat \<Rightarrow> state \<Rightarrow> state" where
  \<comment> \<open>\<^verbatim>\<open>DELETE FROM comment_likes WHERE comment_id = ? AND user_id = ?\<close>\<close>
  "delete_like cid uid st =
     st\<lparr>comment_likes :=
          filter (\<lambda>l. \<not> (l_comment_id l = cid \<and> l_user_id l = uid)) (comment_likes st)\<rparr>"

definition queue_send :: "queue_message \<Rightarrow> state \<Rightarrow> state" where
  "queue_send msg st = st\<lparr>email_queue := email_queue st @ [msg]\<rparr>"

section \<open>Posting a comment (src/index.ts, app.post('/api/comments/:siteKey/:postSlug'))\<close>

text \<open>
  What the handler reads from the request: the two path parameters (the slug already
  decoded), the three fields of the JSON body, the \<^verbatim>\<open>auth_token\<close> cookie and two headers.
\<close>

record comment_request =
  r_siteKey :: string
  r_postSlug :: string
  r_content :: string
  r_parent_id :: "nat option"
  r_post_title :: "string option"
  r_auth_token :: "string option"
  r_ip :: "string option"
  r_user_agent :: "string option"

text \<open>\<^verbatim>\<open>c.req.header(...) || 'unknown'\<close> and \<^verbatim>\<open>parent_id || null\<close>; \<^verbatim>\<open>post_title || null\<close> is
  \<open>truthy_value\<close>.\<close>

definition or_unknown :: "string option \<Rightarrow> string" where
  "or_unknown h = (case h of None \<Rightarrow> ''unknown'' | Some v \<Rightarrow> if v = [] then ''unknown'' else v)"

definition or_null_id :: "nat option \<Rightarrow> nat option" where
  "or_null_id p = (case p of None \<Rightarrow> None | Some n \<Rightarrow> if n = 0 then None else Some n)"

text \<open>The score stored with the new comment (the line under "Calculate spam score").\<close>

definition spamScore :: "site \<Rightarrow> int \<Rightarrow> string \<Rightarrow> user \<Rightarrow> int" where
  "spamScore site now content user =
     (if s_spam_filter_enabled site then calculateSpamScore now content user else 0)"

text \<open>The status chosen for the new comment (the block under "Determine comment status").\<close>

definition determine_status :: "site \<Rightarrow> user \<Rightarrow> int \<Rightarrow> comment_status" where
  "determine_status site user score =
     (if s_moderation_enabled site
      then (if score \<ge> s_auto_approve_threshold site then Spam
            else if u_reputation user < 10 then Pending
            else Approved)
      else Approved)"

definition status_message :: "comment_status \<Rightarrow> string" where
  "status_message status =
     (if status = Pending then ''Your comment is awaiting moderation.''
      else if status = Spam then ''Your comment was flagged as spam.''
      else ''Comment posted successfully!'')"

text \<open>
  The block "Send webhook if configured": when the site has a webhook URL and the
  environment a webhook secret, the event is signed and sent to the queue.
\<close>

definition send_webhook ::
  "env \<Rightarrow> int \<Rightarrow> comment_request \<Rightarrow> user \<Rightarrow> site \<Rightarrow> comment_status \<Rightarrow> nat \<Rightarrow> state \<Rightarrow> state" where
  "send_webhook e now req user site status last_row_id st =
     (case (truthy_value (s_webhook_url site), truthy_value (WEBHOOK_SECRET e)) of
        (Some webhook_url, Some secret) \<Rightarrow>
          (let webhookData =
                 \<lparr>w_event = ''comment.created'', w_comment_id = last_row_id,
                  w_content = r_content req, w_status = status,
                  w_author_name = u_name user, w_author_email = u_email user,
                  w_post_slug = r_postSlug req,
                  w_post_title = r_post_title req, w_timestamp = now\<rparr>;
               signature = digest_base64 e webhookData secret
           in queue_send (Webhook webhook_url webhookData signature) st)
      | _ \<Rightarrow> st)"

text \<open>
  The block "Send email notification to site owner" (the queue binding is always
  present, as \<^verbatim>\<open>wrangler.json\<close> declares it).
\<close>

definition notify_owner :: "env \<Rightarrow> comment_request \<Rightarrow> user \<Rightarrow> site \<Rightarrow> state \<Rightarrow> state" where
  "notify_owner e req user site st =
     (if truthy (RESEND_API_KEY e)
      then (case select_site_owner st (s_id site) of
              None \<Rightarrow> st
            | Some siteOwner \<Rightarrow>
                if u_email_notifications siteOwner
                then queue_send
                       (NewComment (u_email siteOwner) (s_name site) (r_postSlug req)
                          (u_name user) (take 200 (r_content req))) st
                else st)
      else st)"

text \<open>
  The handler from the computation of the score to its end, for the user and the site
  that the first part has found. One clock reading \<open>now\<close> stands for the time of the
  request: it is the \<^verbatim>\<open>Date.now()\<close> of the scorer and the time stamp of the row and of
  the webhook event.
\<close>

definition create_comment ::
  "env \<Rightarrow> int \<Rightarrow> comment_request \<Rightarrow> user \<Rightarrow> site \<Rightarrow> state \<Rightarrow> response \<times> state" where
  "create_comment e now req user site st =
     (let score = spamScore site now (r_content req) user;
          status = determine_status site user score;
          row = \<lparr>c_id = 0, c_site_id = s_id site, c_post_slug = r_postSlug req,
                 c_post_title = truthy_value (r_post_title req), c_user_id = u_id user,
                 c_parent_id = or_null_id (r_parent_id req), c_content = r_content req,
                 c_status = status, c_spam_score = score,
                 c_ip_address = or_unknown (r_ip req),
                 c_user_agent = or_unknown (r_user_agent req),
                 c_created_at = now, c_updated_at = now, c_likes = 0, c_flags = 0\<rparr>
      in case insert_comment row st of
           None \<Rightarrow> (InternalServerError, st)
         | Some (last_row_id, st1) \<Rightarrow>
             (let st2 = update_sites (s_id site)
                          (\<lambda>s. s\<lparr>s_total_comments := s_total_comments s + 1\<rparr>) st1;
                  st3 = (if status = Approved
                         then update_users (u_id user)
                                (\<lambda>u. u\<lparr>u_reputation := u_reputation u + 1\<rparr>) st2
                         else st2);
                  st4 = send_webhook e now req user site status last_row_id st3;
                  st5 = notify_owner e req user site st4
              in (Json 200 (CommentPosted status (status_message status)), st5)))"

text \<open>
  The whole handler: the checks that answer 401, 403 and 404, then the part above.
  The test \<^verbatim>\<open>site.require_auth && !user\<close> comes after \<^verbatim>\<open>!user\<close> has returned, so it never
  holds and has no branch here. The rate limiter in front of the handler decides only
  whether the handler runs.
\<close>

definition post_comment :: "env \<Rightarrow> int \<Rightarrow> comment_request \<Rightarrow> state \<Rightarrow> response \<times> state" where
  "post_comment e now req st =
     (case truthy_value (r_auth_token req) of
        None \<Rightarrow> (Json 401 (Error ''Authentication required''), st)
      | Some token \<Rightarrow>
          (case jwt_verify e token (JWT_SECRET e) of
             None \<Rightarrow> (Json 401 (Error ''Invalid token''), st)
           | Some sub \<Rightarrow>
               (case select_active_user st sub of
                  None \<Rightarrow> (Json 403 (Error ''User not found or banned''), st)
                | Some user \<Rightarrow>
                    (case select_site_by_key st (r_siteKey req) of
                       None \<Rightarrow> (Json 404 (Error ''Invalid site key''), st)
                     | Some site \<Rightarrow> create_comment e now req user site st))))"

text \<open>
  The first three checks of the handler, which are also those of \<^verbatim>\<open>authMiddleware\<close>, as
  one function: the user that a request with this cookie acts as, if any.
\<close>

definition authenticate :: "env \<Rightarrow> string option \<Rightarrow> state \<Rightarrow> user option" where
  "authenticate e token st =
     (case truthy_value token of
        None \<Rightarrow> None
      | Some tok \<Rightarrow>
          (case jwt_verify e tok (JWT_SECRET e) of
             None \<Rightarrow> None
           | Some sub \<Rightarrow> select_active_user st sub))"

text \<open>
  A submission that passes every check of the handler and whose insert succeeds: the
  request is authenticated as \<open>user\<close>, its site key is that of \<open>site\<close>, and its parent,
  when it names one, is an existing comment.
\<close>

definition accepted_submission ::
  "env \<Rightarrow> comment_request \<Rightarrow> state \<Rightarrow> user \<Rightarrow> site \<Rightarrow> bool" where
  "accepted_submission e req st user site =
     (authenticate e (r_auth_token req) st = Some user \<and>
      select_site_by_key st (r_siteKey req) = Some site \<and>
      (case or_null_id (r_parent_id req) of
         None \<Rightarrow> True
       | Some p \<Rightarrow> select_comment st p \<noteq> None))"

section \<open>Liking and flagging (src/index.ts, authMiddleware and the two handlers)\<close>

text \<open>
  \<^verbatim>\<open>authMiddleware\<close>: without a valid token of a user who is not banned the request is
  redirected to the login page; otherwise the user's \<^verbatim>\<open>last_login\<close> is set and the
  handler \<open>next\<close> runs with the row that was read before that update.
\<close>

definition update_last_login :: "int \<Rightarrow> nat \<Rightarrow> state \<Rightarrow> state" where
  \<comment> \<open>\<^verbatim>\<open>UPDATE users SET last_login = ? WHERE id = ?\<close>\<close>
  "update_last_login now uid st = update_users uid (\<lambda>u. u\<lparr>u_last_login := Some now\<rparr>) st"

definition authMiddleware ::
  "env \<Rightarrow> int \<Rightarrow> string \<Rightarrow> string option \<Rightarrow> (user \<Rightarrow> state \<Rightarrow> response \<times> state)
     \<Rightarrow> state \<Rightarrow> response \<times> state" where
  "authMiddleware e now url token next st =
     (case truthy_value token of
        None \<Rightarrow> (RedirectLogin (Some url), st)
      | Some tok \<Rightarrow>
          (case jwt_verify e tok (JWT_SECRET e) of
             None \<Rightarrow> (RedirectLogin None, st)
           | Some sub \<Rightarrow>
               (case select_active_user st sub of
                  None \<Rightarrow> (RedirectLogin None, st)
                | Some user \<Rightarrow>
                    next user (update_last_login now (u_id user) st))))"

text \<open>The handler of \<^verbatim>\<open>POST /api/comments/:id/like\<close>.\<close>

definition like_handler :: "int \<Rightarrow> nat \<Rightarrow> user \<Rightarrow> state \<Rightarrow> response \<times> state" where
  "like_handler now commentId user st =
     (case select_like st commentId (u_id user) of
        Some existing \<Rightarrow>
          (Json 200 (Liked False),
           update_comments commentId (\<lambda>c. c\<lparr>c_likes := c_likes c - 1\<rparr>)
             (delete_like commentId (u_id user) st))
      | None \<Rightarrow>
          (case insert_like \<lparr>l_comment_id = commentId, l_user_id = u_id user,
                             l_created_at = now\<rparr> st of
             None \<Rightarrow> (InternalServerError, st)
           | Some st1 \<Rightarrow>
               (let st2 = update_comments commentId (\<lambda>c. c\<lparr>c_likes := c_likes c + 1\<rparr>) st1;
                    st3 = (case select_comment st2 commentId of
                             None \<Rightarrow> st2
                           | Some comment \<Rightarrow>
                               update_users (c_user_id comment)
                                 (\<lambda>u. u\<lparr>u_reputation := u_reputation u + 1\<rparr>) st2)
                in (Json 200 (Liked True), st3))))"

text \<open>The handler of \<^verbatim>\<open>POST /api/comments/:id/flag\<close>.\<close>

definition flag_handler :: "int \<Rightarrow> nat \<Rightarrow> string \<Rightarrow> user \<Rightarrow> state \<Rightarrow> response \<times> state" where
  "flag_handler now commentId reason user st =
     (case select_flag st commentId (u_id user) of
        Some existing \<Rightarrow> (Json 400 (Error ''You have already flagged this comment''), st)
      | None \<Rightarrow>
          (case insert_flag \<lparr>f_comment_id = commentId, f_user_id = u_id user,
                             f_reason = reason, f_created_at = now\<rparr> st of
             None \<Rightarrow> (InternalServerError, st)
           | Some st1 \<Rightarrow>
               (let st2 = update_comments commentId (\<lambda>c. c\<lparr>c_flags := c_flags c + 1\<rparr>) st1;
                    st3 = (case select_comment st2 commentId of
                             None \<Rightarrow> st2
                           | Some comment \<Rightarrow>
                               if c_flags comment \<ge> 3
                               then update_comments commentId (\<lambda>c. c\<lparr>c_status := Pending\<rparr>) st2
                               else st2)
                in (Json 200 Success, st3))))"

text \<open>The two routes: the middleware, then the handler.\<close>

definition like_route ::
  "env \<Rightarrow> int \<Rightarrow> string \<Rightarrow> string option \<Rightarrow> nat \<Rightarrow> state \<Rightarrow> response \<times> state" where
  "like_route e now url token commentId st =
     authMiddleware e now url token (like_handler now commentId) st"

definition flag_route ::
  "env \<Rightarrow> int \<Rightarrow> string \<Rightarrow> string option \<Rightarrow> nat \<Rightarrow> string \<Rightarrow> state \<Rightarrow> response \<times> state" where
  "flag_route e now url token commentId reason st =
     authMiddleware e now url token (flag_handler now commentId reason) st"

section \<open>Reading the state\<close>

text \<open>The columns that the properties below speak about, by primary key.\<close>

definition reputation_of :: "state \<Rightarrow> nat \<Rightarrow> int option" where
  "reputation_of st uid = map_option u_reputation (select_user st uid)"

definition total_comments_of :: "state \<Rightarrow> nat \<Rightarrow> int option" where
  "total_comments_of st sid = map_option s_total_comments (select_site st sid)"

definition likes_of :: "state \<Rightarrow> nat \<Rightarrow> int option" where
  "likes_of st cid = map_option c_likes (select_comment st cid)"

definition flags_of :: "state \<Rightarrow> nat \<Rightarrow> int option" where
  "flags_of st cid = map_option c_flags (select_comment st cid)"

definition status_of :: "state \<Rightarrow> nat \<Rightarrow> comment_status option" where
  "status_of st cid = map_option c_status (select_comment st cid)"

section \<open>The decision order of the specification\<close>

text \<open>
  The five steps of the specification's moderation engine, written from its words, to
  be compared with the handler: the inputs are the site's policy, the author's
  reputation and the score of the spam scorer.
\<close>

definition spec_decision :: "site \<Rightarrow> int \<Rightarrow> int \<Rightarrow> comment_status" where
  "spec_decision site reputation scorer_score =
     (let score = (if \<not> s_spam_filter_enabled site then 0 else scorer_score)
      in if \<not> s_moderation_enabled site then Approved
         else if score \<ge> s_auto_approve_threshold site then Spam
         else if reputation < 10 then Pending
         else Approved)"

section \<open>A sample installation\<close>

text \<open>
  Three users, one site with a webhook, and an environment whose token check accepts
  the names of the users as tokens; used for the closed instances of the theorems. The
  author \<open>alice\<close> registered at time \<open>0\<close> and has reputation \<open>0\<close>.
\<close>

definition alice :: user where
  "alice = \<lparr>u_id = 11, u_email = ''alice@example.org'', u_name = ''alice'',
            u_email_notifications = True, u_created_at = Some 0, u_last_login = None,
            u_is_banned = False, u_reputation = 0\<rparr>"

definition bob :: user where
  "bob = \<lparr>u_id = 12, u_email = ''bob@example.org'', u_name = ''bob'',
          u_email_notifications = True, u_created_at = Some 0, u_last_login = None,
          u_is_banned = False, u_reputation = 50\<rparr>"

definition carol :: user where
  "carol = \<lparr>u_id = 13, u_email = ''carol@example.org'', u_name = ''carol'',
            u_email_notifications = False, u_created_at = Some 0, u_last_login = None,
            u_is_banned = False, u_reputation = 20\<rparr>"

definition blog :: site where
  "blog = \<lparr>s_id = 3, s_user_id = 12, s_name = ''blog'', s_api_key = ''site-key'',
           s_webhook_url = Some ''https://example.org/hook'', s_moderation_enabled = True,
           s_auto_approve_threshold = 30, s_spam_filter_enabled = True,
           s_require_auth = False, s_total_comments = 0\<rparr>"

definition sample_env :: env where
  "sample_env = \<lparr>JWT_SECRET = ''secret'', WEBHOOK_SECRET = Some ''whsec'',
                 RESEND_API_KEY = None,
                 jwt_verify = (\<lambda>token secret.
                    if token = ''alice'' then Some 11 else if token = ''bob'' then Some 12
                    else if token = ''carol'' then Some 13 else None),
                 digest_base64 = (\<lambda>payload secret. ''c2lnbmF0dXJl'')\<rparr>"

definition sample_state :: state where
  "sample_state = \<lparr>users = [alice, bob, carol], sites = [blog], comments = [], comments_seq = 0,
                   comment_likes = [], comment_flags = [], email_queue = []\<rparr>"

definition sample_request :: "string \<Rightarrow> string \<Rightarrow> comment_request" where
  "sample_request token content =
     \<lparr>r_siteKey = ''site-key'', r_postSlug = ''hello-world'', r_content = content,
      r_parent_id = None, r_post_title = None, r_auth_token = Some token,
      r_ip = None, r_user_agent = None\<rparr>"

text \<open>The sample state after \<open>alice\<close> has posted one comment that was approved directly.\<close>

definition sample_comment :: comment where
  "sample_comment = \<lparr>c_id = 7, c_site_id = 3, c_post_slug = ''hello-world'',
                     c_post_title = None, c_user_id = 11, c_parent_id = None,
                     c_content = ''first'', c_status = Approved, c_spam_score = 0,
                     c_ip_address = ''unknown'', c_user_agent = ''unknown'',
                     c_created_at = 5, c_updated_at = 5, c_likes = 0, c_flags = 0\<rparr>"

definition sample_thread :: state where
  "sample_thread = sample_state\<lparr>comments := [sample_comment], comments_seq := 7\<rparr>"

text \<open>The same thread after \<open>carol\<close>, and then also \<open>alice\<close>, have flagged the comment.\<close>

definition thread_one_flag :: state where
  "thread_one_flag =
     sample_thread\<lparr>comments := [sample_comment\<lparr>c_flags := 1\<rparr>],
                    comment_flags := [\<lparr>f_comment_id = 7, f_user_id = 13,
                                      f_reason = ''off topic'', f_created_at = 50\<rparr>]\<rparr>"

definition thread_two_flags :: state where
  "thread_two_flags =
     sample_thread\<lparr>comments := [sample_comment\<lparr>c_flags := 2\<rparr>],
                    comment_flags := [\<lparr>f_comment_id = 7, f_user_id = 13,
                                      f_reason = ''off topic'', f_created_at = 50\<rparr>,
                                     \<lparr>f_comment_id = 7, f_user_id = 11,
                                      f_reason = ''mistake'', f_created_at = 60\<rparr>]\<rparr>"

text \<open>
  The thread after the flag handler has run for \<open>bob\<close> at time 100, and the thread
  after \<open>bob\<close> has liked the comment at time 100.
\<close>

definition flagged_by_bob :: state where
  "flagged_by_bob = snd (flag_handler 100 7 ''abuse'' bob sample_thread)"

definition liked_by_bob :: state where
  "liked_by_bob =
     snd (like_route sample_env 100 ''/api/comments/7/like'' (Some ''bob'') 7 sample_thread)"

section \<open>Properties of the rate limiter\<close>

lemma get_requests_clean:
  "get_requests (cleanOldEntries nc requests) key = filter_recent nc (get_requests requests key)"
  by (simp add: get_requests_def cleanOldEntries_def Let_def filter_recent_def
      split: option.splits)

lemma filter_recent_twice:
  "nc \<le> now \<Longrightarrow> filter_recent now (filter_recent nc ts) = filter_recent now ts"
  unfolding filter_recent_def filter_filter
  by (rule filter_cong) auto

lemma fetch_status:
  "fst (fetch nc now key requests) =
     (if length (filter_recent now (filter_recent nc (get_requests requests key))) \<ge> 60
      then 429 else 200)"
  by (simp add: fetch_def Let_def get_requests_clean)

lemma fetch_requests:
  "get_requests (snd (fetch nc now key requests)) key =
     (if length (filter_recent now (filter_recent nc (get_requests requests key))) \<ge> 60
      then filter_recent nc (get_requests requests key)
      else filter_recent now (filter_recent nc (get_requests requests key)) @ [now])"
  by (simp add: fetch_def Let_def get_requests_clean) (simp add: get_requests_def)

lemma filter_recent_all:
  "\<forall>t\<in>set ts. now - t < 60000 \<Longrightarrow> filter_recent now ts = ts"
  by (simp add: filter_recent_def)

lemma fetch_seq_append:
  "fetch_seq key (xs @ ys) requests =
     (fst (fetch_seq key xs requests) @ fst (fetch_seq key ys (snd (fetch_seq key xs requests))),
      snd (fetch_seq key ys (snd (fetch_seq key xs requests))))"
  by (induction xs arbitrary: requests) (simp_all add: Let_def)

lemma burst_admitted:
  assumes "\<forall>c\<in>set calls. b \<le> fst c \<and> fst c \<le> snd c \<and> snd c \<le> b + 1000"
    and "\<forall>t\<in>set (get_requests requests key). b \<le> t \<and> t \<le> b + 1000"
    and "length (get_requests requests key) + length calls \<le> 60"
  shows "fst (fetch_seq key calls requests) = replicate (length calls) 200 \<and>
         get_requests (snd (fetch_seq key calls requests)) key
           = get_requests requests key @ map snd calls"
  using assms
proof (induction calls arbitrary: requests)
  case Nil
  then show ?case by simp
next
  case (Cons c cs)
  let ?old = "get_requests requests key"
  let ?r = "fetch (fst c) (snd c) key requests"
  from Cons.prems have c: "b \<le> fst c" "fst c \<le> snd c" "snd c \<le> b + 1000"
    by simp_all
  from Cons.prems(2) c have "\<forall>t\<in>set ?old. fst c - t < 60000" by fastforce
  then have k1: "filter_recent (fst c) ?old = ?old" by (rule filter_recent_all)
  from Cons.prems(2) c have "\<forall>t\<in>set ?old. snd c - t < 60000" by fastforce
  then have k2: "filter_recent (snd c) ?old = ?old" by (rule filter_recent_all)
  from Cons.prems(3) have len: "\<not> 60 \<le> length ?old" by simp
  have st: "fst ?r = 200" by (simp add: fetch_status k1 k2 len)
  have rq: "get_requests (snd ?r) key = ?old @ [snd c]"
    by (simp add: fetch_requests k1 k2 len)
  have "fst (fetch_seq key cs (snd ?r)) = replicate (length cs) 200 \<and>
        get_requests (snd (fetch_seq key cs (snd ?r))) key
          = get_requests (snd ?r) key @ map snd cs"
  proof (rule Cons.IH)
    show "\<forall>c\<in>set cs. b \<le> fst c \<and> fst c \<le> snd c \<and> snd c \<le> b + 1000"
      using Cons.prems(1) by simp
    show "\<forall>t\<in>set (get_requests (snd ?r) key). b \<le> t \<and> t \<le> b + 1000"
      using Cons.prems(2) c by (auto simp: rq)
    show "length (get_requests (snd ?r) key) + length cs \<le> 60"
      using Cons.prems(3) by (simp add: rq)
  qed
  then show ?case by (simp add: Let_def st rq)
qed


text \<open>
  Claim C2. One call of the limiter, for any key and any earlier contents of the map:
  the timestamps kept for the key are those \<open>t\<close> with \<open>now - t < 60000\<close> (so every
  timestamp older than \<open>now - 60s\<close> is dropped); when at least 60 are kept the call is
  answered 429 and \<open>now\<close> is not recorded, the entry being what the cleaning pass left of
  the old one; otherwise \<open>now\<close> is appended after the kept timestamps and the call is
  answered 200. Consequently, on a fresh limiter, 60 calls for the same key whose clock
  readings all lie within one second are answered 200, a 61st call less than 60 seconds
  after the start of that second is answered 429, and a later call at least 60 seconds
  after the first call's timestamp is answered 200 again.
\<close>

theorem rate_limiter_sliding_window:
  "(nc \<le> now \<longrightarrow>
      (let kept = filter (\<lambda>t. now - t < 60000) (get_requests requests key)
       in (length kept \<ge> 60 \<longrightarrow>
             fst (fetch nc now key requests) = 429 \<and>
             get_requests (snd (fetch nc now key requests)) key
               = filter (\<lambda>t. nc - t < 60000) (get_requests requests key)) \<and>
          (length kept < 60 \<longrightarrow>
             fst (fetch nc now key requests) = 200 \<and>
             get_requests (snd (fetch nc now key requests)) key = kept @ [now]))) \<and>
   (length calls = 60 \<and>
    (\<forall>c\<in>set calls. b \<le> fst c \<and> fst c \<le> snd c \<and> snd c \<le> b + 1000) \<and>
    nc61 \<le> now61 \<and> now61 < b + 60000 \<and>
    nc62 \<le> now62 \<and> snd (hd calls) + 60000 \<le> now62 \<longrightarrow>
      fst (fetch_seq key (calls @ [(nc61, now61), (nc62, now62)]) Map.empty)
        = replicate 60 200 @ [429, 200])"
proof (intro conjI impI)
  assume le: "nc \<le> now"
  have tw: "filter_recent now (filter_recent nc (get_requests requests key))
            = filter (\<lambda>t. now - t < 60000) (get_requests requests key)"
    using filter_recent_twice [OF le] by (simp add: filter_recent_def)
  show "let kept = filter (\<lambda>t. now - t < 60000) (get_requests requests key)
        in (length kept \<ge> 60 \<longrightarrow>
              fst (fetch nc now key requests) = 429 \<and>
              get_requests (snd (fetch nc now key requests)) key
                = filter (\<lambda>t. nc - t < 60000) (get_requests requests key)) \<and>
           (length kept < 60 \<longrightarrow>
              fst (fetch nc now key requests) = 200 \<and>
              get_requests (snd (fetch nc now key requests)) key = kept @ [now])"
    unfolding Let_def fetch_status fetch_requests tw
    by (simp add: filter_recent_def)
next
  assume a: "length calls = 60 \<and>
    (\<forall>c\<in>set calls. b \<le> fst c \<and> fst c \<le> snd c \<and> snd c \<le> b + 1000) \<and>
    nc61 \<le> now61 \<and> now61 < b + 60000 \<and>
    nc62 \<le> now62 \<and> snd (hd calls) + 60000 \<le> now62"
  let ?s60 = "snd (fetch_seq key calls Map.empty)"
  let ?L = "map snd calls"
  have inwin: "\<forall>c\<in>set calls. b \<le> fst c \<and> fst c \<le> snd c \<and> snd c \<le> b + 1000"
    using a by blast
  have burst: "fst (fetch_seq key calls Map.empty) = replicate (length calls) 200 \<and>
               get_requests ?s60 key = get_requests Map.empty key @ ?L"
    by (rule burst_admitted [OF inwin]) (use a in \<open>simp_all add: get_requests_def\<close>)
  then have r60: "fst (fetch_seq key calls Map.empty) = replicate 60 200"
    and q60: "get_requests ?s60 key = ?L"
    using a by (simp_all add: get_requests_def)
  have lenL: "length ?L = 60" using a by simp
  have bounds: "\<forall>t\<in>set ?L. b \<le> t" using inwin by auto
  \<comment> \<open>the 61st call\<close>
  let ?r61 = "fetch nc61 now61 key ?s60"
  have "\<forall>t\<in>set ?L. nc61 - t < 60000" using bounds a by fastforce
  then have c61: "filter_recent nc61 ?L = ?L" by (rule filter_recent_all)
  have "\<forall>t\<in>set ?L. now61 - t < 60000" using bounds a by fastforce
  then have n61: "filter_recent now61 ?L = ?L" by (rule filter_recent_all)
  have l60: "length calls = 60" using a by simp
  have st61: "fst ?r61 = 429" by (simp add: fetch_status q60 c61 n61 l60)
  have q61: "get_requests (snd ?r61) key = ?L"
    by (simp add: fetch_requests q60 c61 n61 l60)
  \<comment> \<open>the call after the window has passed\<close>
  let ?r62 = "fetch nc62 now62 key (snd ?r61)"
  from a have ne: "calls \<noteq> []" by auto
  then have hd_in: "snd (hd calls) \<in> set ?L" by (cases calls) simp_all
  have drop: "\<not> now62 - snd (hd calls) < 60000" using a by simp
  have "filter_recent now62 (filter_recent nc62 ?L) = filter_recent now62 ?L"
    using a by (simp add: filter_recent_twice)
  moreover have "length (filter_recent now62 ?L) < length ?L"
    unfolding filter_recent_def using hd_in drop by (rule length_filter_less)
  ultimately have "\<not> 60 \<le> length (filter_recent now62 (filter_recent nc62 ?L))"
    using lenL by simp
  then have st62: "fst ?r62 = 200" by (simp add: fetch_status q61)
  show "fst (fetch_seq key (calls @ [(nc61, now61), (nc62, now62)]) Map.empty)
        = replicate 60 200 @ [429, 200]"
    by (simp add: fetch_seq_append r60 st61 st62 Let_def)
qed

theorem rate_limiter_sliding_window_witness:
  "fst (fetch 5 5 ''/login'' [''/login'' \<mapsto> [1, 2]]) = 200 \<and>
   get_requests (snd (fetch 5 5 ''/login'' [''/login'' \<mapsto> [1, 2]])) ''/login'' = [1, 2, 5] \<and>
   fst (fetch 70000 70000 ''/login'' [''/login'' \<mapsto> replicate 60 69000]) = 429 \<and>
   get_requests (snd (fetch 70000 70000 ''/login'' [''/login'' \<mapsto> replicate 60 69000]))
     ''/login'' = replicate 60 69000 \<and>
   fst (fetch_seq ''/login'' (replicate 60 (0, 0) @ [(1000, 1000), (60000, 60000)]) Map.empty)
     = replicate 60 200 @ [429, 200]"
proof -
  have A: "fst (fetch 5 5 ''/login'' [''/login'' \<mapsto> [1, 2]]) = 200 \<and>
   get_requests (snd (fetch 5 5 ''/login'' [''/login'' \<mapsto> [1, 2]])) ''/login'' = [1, 2, 5]"
    using rate_limiter_sliding_window
      [where nc = 5 and now = 5 and key = "''/login''" and requests = "[''/login'' \<mapsto> [1, 2]]",
        THEN conjunct1]
    by (simp add: get_requests_def Let_def)
  have B: "fst (fetch 70000 70000 ''/login'' [''/login'' \<mapsto> replicate 60 69000]) = 429 \<and>
   get_requests (snd (fetch 70000 70000 ''/login'' [''/login'' \<mapsto> replicate 60 69000]))
     ''/login'' = replicate 60 69000"
    using rate_limiter_sliding_window
      [where nc = 70000 and now = 70000 and key = "''/login''"
         and requests = "[''/login'' \<mapsto> replicate 60 69000]", THEN conjunct1]
    by (simp add: get_requests_def Let_def)
  have C: "fst (fetch_seq ''/login'' (replicate 60 (0, 0) @ [(1000, 1000), (60000, 60000)])
             Map.empty) = replicate 60 200 @ [429, 200]"
    using rate_limiter_sliding_window
      [where calls = "replicate 60 (0, 0)" and b = 0 and ?nc61.0 = 1000 and ?now61.0 = 1000
         and ?nc62.0 = 60000 and ?now62.0 = 60000 and key = "''/login''", THEN conjunct2]
    by simp
  from A B C show ?thesis by blast
qed

section \<open>Properties of comment creation\<close>

lemma find_Some_set: "find P xs = Some x \<Longrightarrow> x \<in> set xs \<and> P x"
  by (induction xs) (auto split: if_splits)

lemma find_exists: "x \<in> set xs \<Longrightarrow> P x \<Longrightarrow> find P xs \<noteq> None"
  by (auto simp: find_None_iff)

lemma find_map_preserve:
  "(\<And>x. P (f x) = P x) \<Longrightarrow> find P (map f xs) = map_option f (find P xs)"
  by (induction xs) simp_all

lemma find_append_new:
  "find P (xs @ [y]) = (case find P xs of Some x \<Rightarrow> Some x | None \<Rightarrow> if P y then Some y else None)"
  by (induction xs) simp_all

lemma authenticated_user:
  assumes "authenticate e token st = Some user"
  shows "user \<in> set (users st)" and "\<not> u_is_banned user"
    and "select_user st (u_id user) \<noteq> None"
proof -
  from assms obtain sub where "select_active_user st sub = Some user"
    by (auto simp: authenticate_def split: option.splits)
  then have f: "user \<in> set (users st) \<and> (u_id user = sub \<and> \<not> u_is_banned user)"
    unfolding select_active_user_def by (rule find_Some_set)
  then show "user \<in> set (users st)" and "\<not> u_is_banned user" by simp_all
  from f show "select_user st (u_id user) \<noteq> None"
    unfolding select_user_def by (intro find_exists [of user]) simp_all
qed

lemma post_comment_authenticated:
  assumes "authenticate e (r_auth_token req) st = Some user"
    and "select_site_by_key st (r_siteKey req) = Some site"
  shows "post_comment e now req st = create_comment e now req user site st"
  using assms by (auto simp: post_comment_def authenticate_def split: option.splits)


lemma projections [simp]:
  "users (update_sites sid f st) = users st"
  "comments (update_sites sid f st) = comments st"
  "email_queue (update_sites sid f st) = email_queue st"
  "sites (update_users uid g st) = sites st"
  "comments (update_users uid g st) = comments st"
  "email_queue (update_users uid g st) = email_queue st"
  "comment_likes (update_users uid g st) = comment_likes st"
  "comment_flags (update_users uid g st) = comment_flags st"
  "users (update_comments cid h st) = users st"
  "sites (update_comments cid h st) = sites st"
  "comment_likes (update_comments cid h st) = comment_likes st"
  "comment_flags (update_comments cid h st) = comment_flags st"
  "email_queue (update_comments cid h st) = email_queue st"
  "users (queue_send m st) = users st"
  "sites (queue_send m st) = sites st"
  "comments (queue_send m st) = comments st"
  "email_queue (queue_send m st) = email_queue st @ [m]"
  "sites (update_sites sid f st) = map (\<lambda>s. if s_id s = sid then f s else s) (sites st)"
  "users (update_users uid g st) = map (\<lambda>u. if u_id u = uid then g u else u) (users st)"
  "comments (update_comments cid h st) = map (\<lambda>c. if c_id c = cid then h c else c) (comments st)"
  by (simp_all add: update_sites_def update_users_def update_comments_def queue_send_def)


lemma send_webhook_frame [simp]:
  "users (send_webhook e now req user site status n st) = users st"
  "sites (send_webhook e now req user site status n st) = sites st"
  "comments (send_webhook e now req user site status n st) = comments st"
  by (simp_all add: send_webhook_def Let_def split: option.splits)

lemma notify_owner_frame [simp]:
  "users (notify_owner e req user site st) = users st"
  "sites (notify_owner e req user site st) = sites st"
  "comments (notify_owner e req user site st) = comments st"
  by (simp_all add: notify_owner_def split: option.splits)

lemma notify_owner_queue:
  "\<exists>more. email_queue (notify_owner e req user site st) = email_queue st @ more"
  by (simp add: notify_owner_def split: option.splits)

lemma create_comment_result:
  fixes now :: int
  assumes acc: "accepted_submission e req st user site"
  defines "score \<equiv> spamScore site now (r_content req) user"
  defines "status \<equiv> determine_status site user score"
  defines "row \<equiv> \<lparr>c_id = Suc (comments_seq st), c_site_id = s_id site, c_post_slug = r_postSlug req,
                 c_post_title = truthy_value (r_post_title req), c_user_id = u_id user,
                 c_parent_id = or_null_id (r_parent_id req), c_content = r_content req,
                 c_status = status, c_spam_score = score,
                 c_ip_address = or_unknown (r_ip req),
                 c_user_agent = or_unknown (r_user_agent req),
                 c_created_at = now, c_updated_at = now, c_likes = 0, c_flags = 0\<rparr>"
  defines "st1 \<equiv> st\<lparr>comments := comments st @ [row], comments_seq := Suc (comments_seq st)\<rparr>"
  defines "st2 \<equiv> update_sites (s_id site)
                          (\<lambda>s. s\<lparr>s_total_comments := s_total_comments s + 1\<rparr>) st1"
  defines "st3 \<equiv> (if status = Approved
                         then update_users (u_id user)
                                (\<lambda>u. u\<lparr>u_reputation := u_reputation u + 1\<rparr>) st2
                         else st2)"
  shows "post_comment e now req st =
           (Json 200 (CommentPosted status (status_message status)),
            notify_owner e req user site
              (send_webhook e now req user site status (Suc (comments_seq st)) st3))"
proof -
  from acc have au: "authenticate e (r_auth_token req) st = Some user"
    and si: "select_site_by_key st (r_siteKey req) = Some site"
    and pa: "(case or_null_id (r_parent_id req) of None \<Rightarrow> True
              | Some p \<Rightarrow> select_comment st p \<noteq> None)"
    by (simp_all add: accepted_submission_def)
  have pc: "post_comment e now req st = create_comment e now req user site st"
    using au si by (rule post_comment_authenticated)
  have fu: "select_user st (u_id user) \<noteq> None" using au by (rule authenticated_user)
  from si have "site \<in> set (sites st) \<and> s_api_key site = r_siteKey req"
    unfolding select_site_by_key_def by (rule find_Some_set)
  then have fs: "select_site st (s_id site) \<noteq> None"
    unfolding select_site_def by (intro find_exists [of site]) simp_all
  show ?thesis
    unfolding pc create_comment_def insert_comment_def Let_def
    using fu fs pa
    by (simp add: st3_def st2_def st1_def row_def status_def score_def)
qed


lemma find_map_update_key:
  assumes "\<And>x. key (f x) = key x"
  shows "find (\<lambda>x. key x = k) (map (\<lambda>x. if key x = j then f x else x) xs)
         = map_option (\<lambda>x. if k = j then f x else x) (find (\<lambda>x. key x = k) xs)"
  using assms by (induction xs) auto

lemma reputation_of_credit:
  "reputation_of (update_users uid (\<lambda>u. u\<lparr>u_reputation := u_reputation u + 1\<rparr>) st) k
   = map_option (\<lambda>r. if k = uid then r + 1 else r) (reputation_of st k)"
  by (simp add: reputation_of_def select_user_def find_map_update_key [where key = u_id]
      option.map_comp comp_def if_distrib cong: if_cong)

lemma accepted_submission_sample:
  "accepted_submission sample_env (sample_request ''alice'' c) sample_state alice blog"
  by (simp add: accepted_submission_def authenticate_def truthy_value_def truthy_def
      sample_env_def sample_request_def sample_state_def select_active_user_def
      select_site_by_key_def alice_def blog_def or_null_id_def)

lemma match_count_empty:
  "match_count match_vocabulary [] = 0" "match_count match_phrases [] = 0"
  "match_count match_url [] = 0" "match_count match_caps [] = 0" "match_count match_link [] = 0"
  by (simp_all add: match_count_def match_vocabulary_def match_phrases_def match_words_def
      word_boundary_def match_url_def match_caps_def match_link_def match_scheme_def)

lemma calculateSpamScore_sum:
  "calculateSpamScore now content user =
     min (int (match_count match_vocabulary content) * 10
          + int (match_count match_phrases content) * 10
          + int (match_count match_url content) * 10
          + int (match_count match_caps content) * 10
          + (if accountAge_below_day now user then 20 else 0)
          + (if u_reputation user < 10 then 15 else 0)
          + (if int (match_count match_link content) > 2
             then int (match_count match_link content) * 15 else 0)) 100"
  by (simp add: calculateSpamScore_def spamPatterns_def Let_def)

lemma sample_counts:
  "match_count match_vocabulary ''buy now http://x.co'' = 0"
  "match_count match_phrases ''buy now http://x.co'' = 1"
  "match_count match_url ''buy now http://x.co'' = 1"
  "match_count match_caps ''buy now http://x.co'' = 0"
  "match_count match_link ''buy now http://x.co'' = 1"
  by code_simp+

text \<open>
  Claim C1. The status that the handler assigns is the one of the specification's
  decision order: the score counts as 0 when the site's spam filter is off; with
  moderation off the status is approved; otherwise a score at or above the site's
  threshold gives spam, otherwise a reputation below 10 gives pending, otherwise the
  status is approved. This holds for the status computed from any site, author, time
  and content, and for every accepted submission it is the status in the response and
  the status stored with the new comment.
\<close>

theorem moderation_decision_order:
  "determine_status site user (spamScore site now content user)
     = spec_decision site (u_reputation user) (calculateSpamScore now content user) \<and>
   (accepted_submission e req st user site \<longrightarrow>
      fst (post_comment e now req st)
        = Json 200 (CommentPosted
            (spec_decision site (u_reputation user) (calculateSpamScore now (r_content req) user))
            (status_message
              (spec_decision site (u_reputation user) (calculateSpamScore now (r_content req) user)))) \<and>
      c_status (last (comments (snd (post_comment e now req st))))
        = spec_decision site (u_reputation user) (calculateSpamScore now (r_content req) user))"
proof -
  have eq: "determine_status site user (spamScore site now c user)
     = spec_decision site (u_reputation user) (calculateSpamScore now c user)" for c
    by (simp add: determine_status_def spamScore_def spec_decision_def)
  show ?thesis
  proof (intro conjI impI)
    show "determine_status site user (spamScore site now content user)
     = spec_decision site (u_reputation user) (calculateSpamScore now content user)" by (rule eq)
  next
    assume acc: "accepted_submission e req st user site"
    note r = create_comment_result [OF acc, of now]
    show "fst (post_comment e now req st)
        = Json 200 (CommentPosted
            (spec_decision site (u_reputation user) (calculateSpamScore now (r_content req) user))
            (status_message
              (spec_decision site (u_reputation user) (calculateSpamScore now (r_content req) user))))"
      by (simp add: r eq)
    show "c_status (last (comments (snd (post_comment e now req st))))
        = spec_decision site (u_reputation user) (calculateSpamScore now (r_content req) user)"
      by (simp add: r eq)
  qed
qed

text \<open>
  An instance: \<open>alice\<close> (reputation 0, an old account) posts an empty comment on the
  sample site; the score is 15, below the threshold 30, and the status is pending.
\<close>

theorem moderation_decision_order_witness:
  "accepted_submission sample_env (sample_request ''alice'' []) sample_state alice blog \<and>
   fst (post_comment sample_env 90000000 (sample_request ''alice'' []) sample_state)
     = Json 200 (CommentPosted Pending ''Your comment is awaiting moderation.'') \<and>
   c_status (last (comments
      (snd (post_comment sample_env 90000000 (sample_request ''alice'' []) sample_state)))) = Pending"
proof -
  have h: "accepted_submission sample_env (sample_request ''alice'' []) sample_state alice blog"
    by (rule accepted_submission_sample)
  have s: "calculateSpamScore 90000000 [] alice = 15"
    by (simp add: calculateSpamScore_sum match_count_empty accountAge_below_day_def alice_def)
  have d: "spec_decision blog (u_reputation alice) 15 = Pending"
    by (simp add: spec_decision_def blog_def alice_def)
  from moderation_decision_order
         [of blog alice 90000000 "[]" sample_env "sample_request ''alice'' []" sample_state]
       h
  show ?thesis by (simp add: s d status_message_def sample_request_def)
qed


lemma total_comments_of_increment:
  "total_comments_of
     (update_sites sid (\<lambda>s. s\<lparr>s_total_comments := s_total_comments s + 1\<rparr>) st) k
   = map_option (\<lambda>n. if k = sid then n + 1 else n) (total_comments_of st k)"
  by (simp add: total_comments_of_def select_site_def find_map_update_key [where key = s_id]
      option.map_comp comp_def if_distrib cong: if_cong)

lemma reputation_of_frame:
  "users st' = users st \<Longrightarrow> reputation_of st' k = reputation_of st k"
  by (simp add: reputation_of_def select_user_def)

lemma total_comments_of_frame:
  "sites st' = sites st \<Longrightarrow> total_comments_of st' k = total_comments_of st k"
  by (simp add: total_comments_of_def select_site_def)

lemma accepted_submission_rows:
  assumes "accepted_submission e req st user site"
  shows "reputation_of st (u_id user) \<noteq> None" and "total_comments_of st (s_id site) \<noteq> None"
proof -
  from assms have au: "authenticate e (r_auth_token req) st = Some user"
    and si: "select_site_by_key st (r_siteKey req) = Some site"
    by (simp_all add: accepted_submission_def)
  from au show "reputation_of st (u_id user) \<noteq> None"
    by (simp add: reputation_of_def authenticated_user)
  from si have "site \<in> set (sites st) \<and> s_api_key site = r_siteKey req"
    unfolding select_site_by_key_def by (rule find_Some_set)
  then have "select_site st (s_id site) \<noteq> None"
    unfolding select_site_def by (intro find_exists [of site]) simp_all
  then show "total_comments_of st (s_id site) \<noteq> None"
    by (simp add: total_comments_of_def)
qed

lemma post_comment_counters:
  fixes now :: int
  assumes acc: "accepted_submission e req st user site"
  defines "status \<equiv> determine_status site user (spamScore site now (r_content req) user)"
  defines "st' \<equiv> snd (post_comment e now req st)"
  shows "reputation_of st' (u_id user)
           = map_option (\<lambda>r. if status = Approved then r + 1 else r) (reputation_of st (u_id user))"
    and "total_comments_of st' (s_id site)
           = map_option (\<lambda>n. n + 1) (total_comments_of st (s_id site))"
proof -
  note r = create_comment_result [OF acc, of now]
  let ?st1 = "st\<lparr>comments := comments st @ [undefined], comments_seq := Suc (comments_seq st)\<rparr>"
  have u: "users st' =
     (if status = Approved
      then map (\<lambda>u. if u_id u = u_id user then u\<lparr>u_reputation := u_reputation u + 1\<rparr> else u)
             (users st)
      else users st)"
    by (simp add: st'_def r status_def)
  have s: "sites st' =
     map (\<lambda>s. if s_id s = s_id site then s\<lparr>s_total_comments := s_total_comments s + 1\<rparr> else s)
       (sites st)"
    by (simp add: st'_def r)
  have "reputation_of st' (u_id user) =
     (if status = Approved
      then reputation_of (update_users (u_id user)
             (\<lambda>u. u\<lparr>u_reputation := u_reputation u + 1\<rparr>) st) (u_id user)
      else reputation_of st (u_id user))"
    by (simp add: reputation_of_def select_user_def u)
  then show "reputation_of st' (u_id user)
           = map_option (\<lambda>r. if status = Approved then r + 1 else r) (reputation_of st (u_id user))"
    by (simp add: reputation_of_credit option.map_ident)
  have "total_comments_of st' (s_id site) =
     total_comments_of (update_sites (s_id site)
        (\<lambda>s. s\<lparr>s_total_comments := s_total_comments s + 1\<rparr>) st) (s_id site)"
    by (simp add: total_comments_of_def select_site_def s)
  then show "total_comments_of st' (s_id site)
           = map_option (\<lambda>n. n + 1) (total_comments_of st (s_id site))"
    by (simp add: total_comments_of_increment)
qed

lemma sample_pending:
  "determine_status blog alice (spamScore blog 90000000 [] alice) = Pending"
  by (simp add: determine_status_def spamScore_def calculateSpamScore_sum match_count_empty
      accountAge_below_day_def alice_def blog_def)

lemma sample_rows:
  "reputation_of sample_state 11 = Some 0" "reputation_of sample_state 12 = Some 50"
  "total_comments_of sample_state 3 = Some 0"
  by (simp_all add: reputation_of_def total_comments_of_def select_user_def select_site_def
      sample_state_def alice_def bob_def blog_def)

text \<open>
  Claim C5 says that a creation whose status is pending or spam leaves the site's
  comment counter unchanged. On the sample site a comment of \<open>alice\<close> is created with
  status pending, and the counter of the site goes from 0 to 1.
\<close>

theorem counters_on_pending_counterexample:
  "fst (post_comment sample_env 90000000 (sample_request ''alice'' []) sample_state)
     = Json 200 (CommentPosted Pending ''Your comment is awaiting moderation.'') \<and>
   total_comments_of sample_state 3 = Some 0 \<and>
   total_comments_of
     (snd (post_comment sample_env 90000000 (sample_request ''alice'' []) sample_state)) 3 = Some 1"
proof -
  note acc = accepted_submission_sample [of "[]"]
  have "fst (post_comment sample_env 90000000 (sample_request ''alice'' []) sample_state)
     = Json 200 (CommentPosted Pending ''Your comment is awaiting moderation.'')"
    using create_comment_result [OF acc, of 90000000] sample_pending
    by (simp add: sample_request_def status_message_def)
  moreover have "total_comments_of
     (snd (post_comment sample_env 90000000 (sample_request ''alice'' []) sample_state)) 3 = Some 1"
    using post_comment_counters(2) [OF acc, of 90000000]
    by (simp add: sample_rows blog_def)
  ultimately show ?thesis by (simp add: sample_rows)
qed

text \<open>
  Claim C5, amended. For every accepted submission, the author's reputation is credited
  1 exactly when the assigned status is approved and is unchanged when the status is
  pending or spam; the site's comment counter is incremented by 1 whatever the assigned
  status is.
\<close>

theorem counters_on_creation:
  "accepted_submission e req st user site \<longrightarrow>
     (let status = determine_status site user (spamScore site now (r_content req) user);
          st' = snd (post_comment e now req st)
      in fst (post_comment e now req st) = Json 200 (CommentPosted status (status_message status)) \<and>
         reputation_of st (u_id user) \<noteq> None \<and>
         reputation_of st' (u_id user)
           = map_option (\<lambda>r. if status = Approved then r + 1 else r)
               (reputation_of st (u_id user)) \<and>
         total_comments_of st (s_id site) \<noteq> None \<and>
         total_comments_of st' (s_id site)
           = map_option (\<lambda>n. n + 1) (total_comments_of st (s_id site)))"
proof
  assume acc: "accepted_submission e req st user site"
  have "fst (post_comment e now req st)
        = Json 200 (CommentPosted
            (determine_status site user (spamScore site now (r_content req) user))
            (status_message (determine_status site user (spamScore site now (r_content req) user))))"
    by (simp add: create_comment_result [OF acc, of now])
  then show "let status = determine_status site user (spamScore site now (r_content req) user);
          st' = snd (post_comment e now req st)
      in fst (post_comment e now req st) = Json 200 (CommentPosted status (status_message status)) \<and>
         reputation_of st (u_id user) \<noteq> None \<and>
         reputation_of st' (u_id user)
           = map_option (\<lambda>r. if status = Approved then r + 1 else r)
               (reputation_of st (u_id user)) \<and>
         total_comments_of st (s_id site) \<noteq> None \<and>
         total_comments_of st' (s_id site)
           = map_option (\<lambda>n. n + 1) (total_comments_of st (s_id site))"
    unfolding Let_def
    using post_comment_counters [OF acc, of now] accepted_submission_rows [OF acc]
    by simp
qed

lemma accepted_submission_bob:
  "accepted_submission sample_env (sample_request ''bob'' c) sample_state bob blog"
  by (simp add: accepted_submission_def authenticate_def truthy_value_def truthy_def
      sample_env_def sample_request_def sample_state_def select_active_user_def
      select_site_by_key_def alice_def bob_def blog_def or_null_id_def)

lemma sample_approved:
  "determine_status blog bob (spamScore blog 90000000 [] bob) = Approved"
  by (simp add: determine_status_def spamScore_def calculateSpamScore_sum match_count_empty
      accountAge_below_day_def bob_def blog_def)

text \<open>
  An instance: \<open>bob\<close> (reputation 50) posts on the sample site, the comment is approved,
  his reputation becomes 51 and the counter of the site 1.
\<close>

theorem counters_on_creation_witness:
  "accepted_submission sample_env (sample_request ''bob'' []) sample_state bob blog \<and>
   fst (post_comment sample_env 90000000 (sample_request ''bob'' []) sample_state)
     = Json 200 (CommentPosted Approved ''Comment posted successfully!'') \<and>
   reputation_of (snd (post_comment sample_env 90000000 (sample_request ''bob'' []) sample_state)) 12
     = Some 51 \<and>
   total_comments_of
     (snd (post_comment sample_env 90000000 (sample_request ''bob'' []) sample_state)) 3 = Some 1"
proof -
  note acc = accepted_submission_bob [of "[]"]
  from counters_on_creation [of sample_env "sample_request ''bob'' []" sample_state bob blog 90000000]
    acc sample_approved
  show ?thesis
    by (simp add: Let_def sample_rows sample_request_def status_message_def bob_def blog_def)
qed


lemma send_webhook_queue:
  assumes "s_webhook_url site = Some url" "url \<noteq> []"
    and "WEBHOOK_SECRET e = Some secret" "secret \<noteq> []"
  shows "\<exists>data. email_queue (send_webhook e now req user site status n st)
                  = email_queue st @ [Webhook url data (digest_base64 e data secret)] \<and>
                w_event data = ''comment.created'' \<and> w_status data = status \<and>
                w_content data = r_content req \<and> w_comment_id data = n"
  using assms by (simp add: send_webhook_def truthy_value_def truthy_def Let_def)

text \<open>
  Claim C10. For every accepted submission on a site with a non-empty webhook URL, in an
  environment with a non-empty webhook secret, the handler appends to the queue one
  webhook message for that URL, with event name \<open>comment.created\<close>, the content of the
  comment, the assigned status and the signature of the payload under the secret. There
  is no condition on the assigned status: the message carries the status of the
  response, whether approved, pending or spam.
\<close>

theorem webhook_for_every_status:
  "accepted_submission e req st user site \<and>
   s_webhook_url site = Some url \<and> url \<noteq> [] \<and>
   WEBHOOK_SECRET e = Some secret \<and> secret \<noteq> [] \<longrightarrow>
     (\<exists>data more.
        email_queue (snd (post_comment e now req st))
          = email_queue st @ Webhook url data (digest_base64 e data secret) # more \<and>
        w_event data = ''comment.created'' \<and>
        w_content data = r_content req \<and>
        w_status data = determine_status site user (spamScore site now (r_content req) user) \<and>
        fst (post_comment e now req st)
          = Json 200 (CommentPosted (w_status data) (status_message (w_status data))))"
proof
  assume a: "accepted_submission e req st user site \<and>
   s_webhook_url site = Some url \<and> url \<noteq> [] \<and>
   WEBHOOK_SECRET e = Some secret \<and> secret \<noteq> []"
  then have acc: "accepted_submission e req st user site" by simp
  note r = create_comment_result [OF acc, of now]
  let ?status = "determine_status site user (spamScore site now (r_content req) user)"
  let ?st4 = "send_webhook e now req user site ?status (Suc (comments_seq st))"
  have "\<exists>st3. snd (post_comment e now req st) = notify_owner e req user site (?st4 st3) \<and>
              email_queue st3 = email_queue st"
    unfolding r snd_conv by (rule exI, rule conjI, rule refl) simp
  then obtain st3 where st3: "snd (post_comment e now req st)
                           = notify_owner e req user site (?st4 st3)"
    and q3: "email_queue st3 = email_queue st" by blast
  from a obtain data where d: "email_queue (?st4 st3)
        = email_queue st3 @ [Webhook url data (digest_base64 e data secret)]"
      "w_event data = ''comment.created''" "w_status data = ?status"
      "w_content data = r_content req"
    using send_webhook_queue [of site url e secret now req user ?status "Suc (comments_seq st)" st3]
    by auto
  obtain more where m: "email_queue (notify_owner e req user site (?st4 st3))
                          = email_queue (?st4 st3) @ more"
    using notify_owner_queue by blast
  have "email_queue (snd (post_comment e now req st))
          = email_queue st @ Webhook url data (digest_base64 e data secret) # more"
    by (simp add: st3 m d q3)
  moreover have "fst (post_comment e now req st)
          = Json 200 (CommentPosted (w_status data) (status_message (w_status data)))"
    by (simp add: r d)
  ultimately show "\<exists>data more.
        email_queue (snd (post_comment e now req st))
          = email_queue st @ Webhook url data (digest_base64 e data secret) # more \<and>
        w_event data = ''comment.created'' \<and>
        w_content data = r_content req \<and>
        w_status data = determine_status site user (spamScore site now (r_content req) user) \<and>
        fst (post_comment e now req st)
          = Json 200 (CommentPosted (w_status data) (status_message (w_status data)))"
    using d by blast
qed

text \<open>
  An instance: the comment of \<open>alice\<close> on the sample site is pending, and the queue,
  empty before, starts with the webhook message of that pending comment.
\<close>

theorem webhook_for_every_status_witness:
  "accepted_submission sample_env (sample_request ''alice'' []) sample_state alice blog \<and>
   (\<exists>data more.
      email_queue (snd (post_comment sample_env 90000000 (sample_request ''alice'' []) sample_state))
        = Webhook ''https://example.org/hook'' data ''c2lnbmF0dXJl'' # more \<and>
      w_event data = ''comment.created'' \<and> w_status data = Pending)"
proof -
  note acc = accepted_submission_sample [of "[]"]
  have h: "accepted_submission sample_env (sample_request ''alice'' []) sample_state alice blog \<and>
     s_webhook_url blog = Some ''https://example.org/hook'' \<and> ''https://example.org/hook'' \<noteq> [] \<and>
     WEBHOOK_SECRET sample_env = Some ''whsec'' \<and> ''whsec'' \<noteq> []"
    using acc by (simp add: blog_def sample_env_def)
  from webhook_for_every_status
         [of sample_env "sample_request ''alice'' []" sample_state alice blog
             "''https://example.org/hook''" "''whsec''" 90000000] h
  obtain data more where
    "email_queue (snd (post_comment sample_env 90000000 (sample_request ''alice'' []) sample_state))
       = email_queue sample_state
         @ Webhook ''https://example.org/hook'' data (digest_base64 sample_env data ''whsec'') # more"
    "w_event data = ''comment.created''"
    "w_status data = determine_status blog alice
       (spamScore blog 90000000 (r_content (sample_request ''alice'' [])) alice)"
    by blast
  then have "email_queue (snd (post_comment sample_env 90000000 (sample_request ''alice'' []) sample_state))
        = Webhook ''https://example.org/hook'' data ''c2lnbmF0dXJl'' # more \<and>
      w_event data = ''comment.created'' \<and> w_status data = Pending"
    using sample_pending by (simp add: sample_state_def sample_env_def sample_request_def)
  then show ?thesis using acc by blast
qed


section \<open>The end-to-end scenario and the inputs of the scorer\<close>

text \<open>
  Claim C3 gives 30 as the score of a comment with one URL and the phrase "buy now" by
  an author registered two hours ago with reputation 0. For the content
  \<open>buy now http://x.co\<close> the scorer returns 55: 10 for the phrase, 10 for the URL, 20
  for the account age and 15 for the reputation below 10.
\<close>

theorem scenario_score_counterexample:
  "calculateSpamScore 7200000 ''buy now http://x.co'' alice = 55 \<and>
   calculateSpamScore 7200000 ''buy now http://x.co'' alice \<noteq> 30"
  by (simp add: calculateSpamScore_sum sample_counts accountAge_below_day_def alice_def)

text \<open>
  Claim C3, amended. On a site with moderation and spam filter enabled and threshold
  30, an author registered two hours ago with reputation 0 posts a content whose only
  pattern hits are one URL and one promotional phrase. Then the score is 55, the
  response and the stored comment have status spam, the stored score is 55, and the
  author's reputation is unchanged.
\<close>

theorem scenario_new_author_spam:
  "accepted_submission e req st user site \<and>
   s_moderation_enabled site \<and> s_spam_filter_enabled site \<and>
   s_auto_approve_threshold site = 30 \<and>
   u_created_at user = Some (now - 2 * 60 * 60 * 1000) \<and> u_reputation user = 0 \<and>
   match_count match_url (r_content req) = 1 \<and>
   match_count match_link (r_content req) = 1 \<and>
   match_count match_phrases (r_content req) = 1 \<and>
   match_count match_vocabulary (r_content req) = 0 \<and>
   match_count match_caps (r_content req) = 0 \<longrightarrow>
     calculateSpamScore now (r_content req) user = 55 \<and>
     fst (post_comment e now req st)
       = Json 200 (CommentPosted Spam ''Your comment was flagged as spam.'') \<and>
     c_status (last (comments (snd (post_comment e now req st)))) = Spam \<and>
     c_spam_score (last (comments (snd (post_comment e now req st)))) = 55 \<and>
     reputation_of (snd (post_comment e now req st)) (u_id user) = reputation_of st (u_id user)"
proof
  assume a: "accepted_submission e req st user site \<and>
   s_moderation_enabled site \<and> s_spam_filter_enabled site \<and>
   s_auto_approve_threshold site = 30 \<and>
   u_created_at user = Some (now - 2 * 60 * 60 * 1000) \<and> u_reputation user = 0 \<and>
   match_count match_url (r_content req) = 1 \<and>
   match_count match_link (r_content req) = 1 \<and>
   match_count match_phrases (r_content req) = 1 \<and>
   match_count match_vocabulary (r_content req) = 0 \<and>
   match_count match_caps (r_content req) = 0"
  then have acc: "accepted_submission e req st user site" by simp
  have score: "calculateSpamScore now (r_content req) user = 55"
    using a by (simp add: calculateSpamScore_sum accountAge_below_day_def)
  have sc: "spamScore site now (r_content req) user = 55"
    using a score by (simp add: spamScore_def)
  have status: "determine_status site user (spamScore site now (r_content req) user) = Spam"
    using a by (simp add: sc determine_status_def)
  note r = create_comment_result [OF acc, of now]
  have "fst (post_comment e now req st)
       = Json 200 (CommentPosted Spam ''Your comment was flagged as spam.'')"
    by (simp add: r status status_message_def)
  moreover have "c_status (last (comments (snd (post_comment e now req st)))) = Spam"
    by (simp add: r status)
  moreover have "c_spam_score (last (comments (snd (post_comment e now req st)))) = 55"
    by (simp add: r status sc)
  moreover have "reputation_of (snd (post_comment e now req st)) (u_id user)
                 = reputation_of st (u_id user)"
    using post_comment_counters(1) [OF acc, of now]
    by (simp add: status option.map_ident)
  ultimately show "calculateSpamScore now (r_content req) user = 55 \<and>
     fst (post_comment e now req st)
       = Json 200 (CommentPosted Spam ''Your comment was flagged as spam.'') \<and>
     c_status (last (comments (snd (post_comment e now req st)))) = Spam \<and>
     c_spam_score (last (comments (snd (post_comment e now req st)))) = 55 \<and>
     reputation_of (snd (post_comment e now req st)) (u_id user) = reputation_of st (u_id user)"
    using score by blast
qed

text \<open>
  An instance: \<open>alice\<close>, two hours after her registration, posts
  \<open>buy now http://x.co\<close> on the sample site.
\<close>

theorem scenario_new_author_spam_witness:
  "accepted_submission sample_env (sample_request ''alice'' ''buy now http://x.co'')
     sample_state alice blog \<and>
   fst (post_comment sample_env 7200000 (sample_request ''alice'' ''buy now http://x.co'')
          sample_state)
     = Json 200 (CommentPosted Spam ''Your comment was flagged as spam.'') \<and>
   c_spam_score (last (comments (snd (post_comment sample_env 7200000
      (sample_request ''alice'' ''buy now http://x.co'') sample_state)))) = 55 \<and>
   reputation_of (snd (post_comment sample_env 7200000
      (sample_request ''alice'' ''buy now http://x.co'') sample_state)) 11 = Some 0"
proof -
  note acc = accepted_submission_sample [of "''buy now http://x.co''"]
  have c: "r_content (sample_request ''alice'' ''buy now http://x.co'') = ''buy now http://x.co''"
    by (simp add: sample_request_def)
  have h: "accepted_submission sample_env (sample_request ''alice'' ''buy now http://x.co'')
       sample_state alice blog \<and>
     s_moderation_enabled blog \<and> s_spam_filter_enabled blog \<and>
     s_auto_approve_threshold blog = 30 \<and>
     u_created_at alice = Some (7200000 - 2 * 60 * 60 * 1000) \<and> u_reputation alice = 0 \<and>
     match_count match_url (r_content (sample_request ''alice'' ''buy now http://x.co'')) = 1 \<and>
     match_count match_link (r_content (sample_request ''alice'' ''buy now http://x.co'')) = 1 \<and>
     match_count match_phrases (r_content (sample_request ''alice'' ''buy now http://x.co'')) = 1 \<and>
     match_count match_vocabulary (r_content (sample_request ''alice'' ''buy now http://x.co'')) = 0 \<and>
     match_count match_caps (r_content (sample_request ''alice'' ''buy now http://x.co'')) = 0"
    unfolding c using acc by (simp add: sample_counts blog_def alice_def)
  have u: "u_id alice = 11" by (simp add: alice_def)
  from scenario_new_author_spam
         [of sample_env "sample_request ''alice'' ''buy now http://x.co''" sample_state alice blog
             7200000] h acc
  show ?thesis by (simp add: u sample_rows)
qed

text \<open>
  Claim C4 says that the score depends on nothing but the content and the author. The
  scorer reads the clock to compute the account age: for the same empty content and the
  same author \<open>alice\<close>, registered at time 0, the score one second after the
  registration (35) differs from the score 25 hours after it (15).
\<close>

theorem scorer_reads_clock_counterexample:
  "calculateSpamScore 1000 [] alice \<noteq> calculateSpamScore 90000000 [] alice"
  by (simp add: calculateSpamScore_sum match_count_empty accountAge_below_day_def alice_def)

text \<open>
  Claim C4, amended. The score is a function of the content, the author's reputation
  and whether the account is younger than 24 hours at the time of the call; the clock
  enters only through that test. Two evaluations with the same content, equal
  reputations and the same outcome of the age test give the same score.
\<close>

theorem scorer_function_of_content_author_age:
  "u_reputation user1 = u_reputation user2 \<and>
   accountAge_below_day now1 user1 = accountAge_below_day now2 user2 \<longrightarrow>
     calculateSpamScore now1 content user1 = calculateSpamScore now2 content user2"
  by (simp add: calculateSpamScore_sum)

text \<open>
  An instance: one and two seconds after the registration of \<open>alice\<close> the scores of
  the same content agree.
\<close>

theorem scorer_function_of_content_author_age_witness:
  "u_reputation alice = u_reputation alice \<and>
   accountAge_below_day 1000 alice = accountAge_below_day 2000 alice \<and>
   calculateSpamScore 1000 ''buy now http://x.co'' alice
     = calculateSpamScore 2000 ''buy now http://x.co'' alice"
proof -
  have h: "u_reputation alice = u_reputation alice \<and>
           accountAge_below_day 1000 alice = accountAge_below_day 2000 alice"
    by (simp add: accountAge_below_day_def alice_def)
  from scorer_function_of_content_author_age
         [of alice alice 1000 2000 "''buy now http://x.co''"] h
  show ?thesis by blast
qed

section \<open>Properties of flags and likes\<close>

lemma more_projections [simp]:
  "comment_likes (update_comments cid h st) = comment_likes st"
  "comment_flags (update_comments cid h st) = comment_flags st"
  "comments_seq (update_comments cid h st) = comments_seq st"
  "comments_seq (update_users uid g st) = comments_seq st"
  "users (delete_like cid uid st) = users st"
  "sites (delete_like cid uid st) = sites st"
  "comments (delete_like cid uid st) = comments st"
  "comments_seq (delete_like cid uid st) = comments_seq st"
  "comment_flags (delete_like cid uid st) = comment_flags st"
  "email_queue (delete_like cid uid st) = email_queue st"
  "comment_likes (delete_like cid uid st)
     = filter (\<lambda>l. \<not> (l_comment_id l = cid \<and> l_user_id l = uid)) (comment_likes st)"
  by (simp_all add: update_comments_def update_users_def delete_like_def)

lemma update_last_login_fields [simp]:
  "sites (update_last_login now uid st) = sites st"
  "comments (update_last_login now uid st) = comments st"
  "comments_seq (update_last_login now uid st) = comments_seq st"
  "comment_likes (update_last_login now uid st) = comment_likes st"
  "comment_flags (update_last_login now uid st) = comment_flags st"
  "email_queue (update_last_login now uid st) = email_queue st"
  by (simp_all add: update_last_login_def)

lemma select_frames [simp]:
  "select_comment (update_last_login now uid st) = select_comment st"
  "select_like (update_last_login now uid st) = select_like st"
  "select_flag (update_last_login now uid st) = select_flag st"
  "select_comment (update_users uid g st) = select_comment st"
  "select_like (update_users uid g st) = select_like st"
  "select_like (update_comments cid h st) = select_like st"
  "select_flag (update_comments cid h st) = select_flag st"
  by (simp_all add: fun_eq_iff select_comment_def select_like_def select_flag_def)

lemma select_user_update_users:
  assumes "\<And>u. u_id (g u) = u_id u"
  shows "select_user (update_users uid g st) k
         = map_option (\<lambda>u. if k = uid then g u else u) (select_user st k)"
  using assms by (simp add: select_user_def find_map_update_key [where key = u_id])

lemma select_user_exists_update_users:
  assumes "\<And>u. u_id (g u) = u_id u"
  shows "(select_user (update_users uid g st) k \<noteq> None) = (select_user st k \<noteq> None)"
  by (simp add: select_user_update_users [OF assms])

lemma select_user_exists_login [simp]:
  "(select_user (update_last_login now uid st) k = None) = (select_user st k = None)"
  by (simp add: update_last_login_def select_user_update_users)

lemma select_comment_update_comments:
  assumes "\<And>c. c_id (h c) = c_id c"
  shows "select_comment (update_comments cid h st) k
         = map_option (\<lambda>c. if k = cid then h c else c) (select_comment st k)"
  using assms by (simp add: select_comment_def find_map_update_key [where key = c_id])

lemma authenticate_update_users:
  assumes "\<And>u. u_id (g u) = u_id u" "\<And>u. u_is_banned (g u) = u_is_banned u"
  shows "authenticate e token (update_users uid g st)
         = map_option (\<lambda>u. if u_id u = uid then g u else u) (authenticate e token st)"
proof -
  have "find (\<lambda>u. u_id u = sub \<and> \<not> u_is_banned u)
          (map (\<lambda>u. if u_id u = uid then g u else u) (users st))
        = map_option (\<lambda>u. if u_id u = uid then g u else u)
            (find (\<lambda>u. u_id u = sub \<and> \<not> u_is_banned u) (users st))" for sub
    by (rule find_map_preserve) (simp add: assms)
  then show ?thesis
    by (simp add: authenticate_def select_active_user_def split: option.splits)
qed

lemma authenticate_frame:
  assumes "users st' = users st"
  shows "authenticate e token st' = authenticate e token st"
proof -
  have "select_active_user st' = select_active_user st"
    by (simp add: fun_eq_iff select_active_user_def assms)
  then show ?thesis by (simp add: authenticate_def split: option.splits)
qed

lemma authMiddleware_authenticated:
  assumes "authenticate e token st = Some user"
  shows "authMiddleware e now url token next st
         = next user (update_last_login now (u_id user) st)"
  using assms by (auto simp: authMiddleware_def authenticate_def split: option.splits)

text \<open>A later request with the same cookie is authenticated as a row with the same id.\<close>

lemma authenticate_again:
  assumes "authenticate e token st = Some user"
    and "users st' = map (\<lambda>u. if u_id u = k then g u else u) (users (update_last_login now j st))"
    and "\<And>u. u_id (g u) = u_id u" "\<And>u. u_is_banned (g u) = u_is_banned u"
  shows "\<exists>user'. authenticate e token st' = Some user' \<and> u_id user' = u_id user"
proof -
  have 1: "authenticate e token (update_last_login now j st)
           = Some (if u_id user = j then user\<lparr>u_last_login := Some now\<rparr> else user)"
    unfolding update_last_login_def
    by (simp add: authenticate_update_users assms(1))
  have "users st' = users (update_users k g (update_last_login now j st))"
    by (simp add: assms(2))
  then have "authenticate e token st'
             = authenticate e token (update_users k g (update_last_login now j st))"
    by (rule authenticate_frame)
  also have "\<dots> = map_option (\<lambda>u. if u_id u = k then g u else u)
                     (authenticate e token (update_last_login now j st))"
    by (rule authenticate_update_users) (rule assms)+
  finally show ?thesis by (simp add: 1 assms(3))
qed


lemma like_handler_new:
  assumes nl: "select_like st cid (u_id user) = None"
    and c: "select_comment st cid = Some c"
    and u: "select_user st (u_id user) \<noteq> None"
  shows "like_handler now cid user st =
           (Json 200 (Liked True),
            update_users (c_user_id c) (\<lambda>u. u\<lparr>u_reputation := u_reputation u + 1\<rparr>)
              (update_comments cid (\<lambda>c. c\<lparr>c_likes := c_likes c + 1\<rparr>)
                 (st\<lparr>comment_likes := comment_likes st
                       @ [\<lparr>l_comment_id = cid, l_user_id = u_id user, l_created_at = now\<rparr>]\<rparr>)))"
proof -
  let ?st1 = "st\<lparr>comment_likes := comment_likes st
                 @ [\<lparr>l_comment_id = cid, l_user_id = u_id user, l_created_at = now\<rparr>]\<rparr>"
  have ins: "insert_like \<lparr>l_comment_id = cid, l_user_id = u_id user, l_created_at = now\<rparr> st
             = Some ?st1"
    using nl c u by (simp add: insert_like_def)
  have "select_comment ?st1 cid = Some c"
    using c by (simp add: select_comment_def)
  then have sel: "select_comment (update_comments cid (\<lambda>c. c\<lparr>c_likes := c_likes c + 1\<rparr>) ?st1) cid
                  = Some (c\<lparr>c_likes := c_likes c + 1\<rparr>)"
    by (simp add: select_comment_update_comments)
  show ?thesis
    unfolding like_handler_def by (simp add: nl ins sel Let_def)
qed

lemma like_handler_existing:
  assumes "select_like st cid (u_id user) = Some l"
  shows "like_handler now cid user st =
           (Json 200 (Liked False),
            update_comments cid (\<lambda>c. c\<lparr>c_likes := c_likes c - 1\<rparr>)
              (delete_like cid (u_id user) st))"
  using assms by (simp add: like_handler_def)

lemma flag_handler_new:
  assumes nf: "select_flag st cid (u_id user) = None"
    and c: "select_comment st cid = Some c"
    and u: "select_user st (u_id user) \<noteq> None"
  shows "flag_handler now cid reason user st =
           (Json 200 Success,
            (let st2 = update_comments cid (\<lambda>c. c\<lparr>c_flags := c_flags c + 1\<rparr>)
                         (st\<lparr>comment_flags := comment_flags st
                               @ [\<lparr>f_comment_id = cid, f_user_id = u_id user,
                                   f_reason = reason, f_created_at = now\<rparr>]\<rparr>)
             in if c_flags c + 1 \<ge> 3
                then update_comments cid (\<lambda>c. c\<lparr>c_status := Pending\<rparr>) st2 else st2))"
proof -
  let ?st1 = "st\<lparr>comment_flags := comment_flags st
                 @ [\<lparr>f_comment_id = cid, f_user_id = u_id user,
                     f_reason = reason, f_created_at = now\<rparr>]\<rparr>"
  have ins: "insert_flag \<lparr>f_comment_id = cid, f_user_id = u_id user,
                          f_reason = reason, f_created_at = now\<rparr> st = Some ?st1"
    using c u by (simp add: insert_flag_def)
  have "select_comment ?st1 cid = Some c"
    using c by (simp add: select_comment_def)
  then have sel: "select_comment (update_comments cid (\<lambda>c. c\<lparr>c_flags := c_flags c + 1\<rparr>) ?st1) cid
                  = Some (c\<lparr>c_flags := c_flags c + 1\<rparr>)"
    by (simp add: select_comment_update_comments)
  show ?thesis
    unfolding flag_handler_def by (simp add: nf ins sel Let_def)
qed

lemma flag_handler_existing:
  assumes "select_flag st cid (u_id user) = Some f"
  shows "flag_handler now cid reason user st =
           (Json 400 (Error ''You have already flagged this comment''), st)"
  using assms by (simp add: flag_handler_def)


lemma flag_route_accepted:
  assumes au: "authenticate e token st = Some user"
    and c: "select_comment st cid = Some c"
    and nf: "select_flag st cid (u_id user) = None"
  shows "flag_route e now url token cid reason st =
           (Json 200 Success,
            (let st2 = update_comments cid (\<lambda>c. c\<lparr>c_flags := c_flags c + 1\<rparr>)
                         ((update_last_login now (u_id user) st)
                            \<lparr>comment_flags := comment_flags st
                               @ [\<lparr>f_comment_id = cid, f_user_id = u_id user,
                                   f_reason = reason, f_created_at = now\<rparr>]\<rparr>)
             in if c_flags c + 1 \<ge> 3
                then update_comments cid (\<lambda>c. c\<lparr>c_status := Pending\<rparr>) st2 else st2))"
proof -
  have u: "select_user (update_last_login now (u_id user) st) (u_id user) \<noteq> None"
    using authenticated_user(3) [OF au] by simp
  show ?thesis
    unfolding flag_route_def authMiddleware_authenticated [OF au]
    using flag_handler_new [of "update_last_login now (u_id user) st" cid user c now reason] nf c u
    by simp
qed

lemma flag_route_accepted_fields:
  fixes now :: int and url :: string and reason :: string
  assumes au: "authenticate e token st = Some user"
    and c: "select_comment st cid = Some c"
    and nf: "select_flag st cid (u_id user) = None"
  defines "st' \<equiv> snd (flag_route e now url token cid reason st)"
  shows "select_comment st' cid
           = Some (c\<lparr>c_flags := c_flags c + 1,
                     c_status := (if c_flags c + 1 \<ge> 3 then Pending else c_status c)\<rparr>)"
    and "users st' = users (update_last_login now (u_id user) st)"
    and "select_flag st' cid (u_id user) \<noteq> None"
proof -
  note r = flag_route_accepted [OF au c nf, of now url reason]
  let ?row = "\<lparr>f_comment_id = cid, f_user_id = u_id user, f_reason = reason, f_created_at = now\<rparr>"
  let ?st1 = "(update_last_login now (u_id user) st)\<lparr>comment_flags := comment_flags st @ [?row]\<rparr>"
  have s1: "select_comment ?st1 cid = Some c"
    using c by (simp add: select_comment_def)
  show "select_comment st' cid
           = Some (c\<lparr>c_flags := c_flags c + 1,
                     c_status := (if c_flags c + 1 \<ge> 3 then Pending else c_status c)\<rparr>)"
    unfolding st'_def r by (simp add: Let_def select_comment_update_comments s1)
  show "users st' = users (update_last_login now (u_id user) st)"
    unfolding st'_def r by (simp add: Let_def)
  have "select_flag ?st1 cid (u_id user) \<noteq> None"
    by (simp add: select_flag_def find_append_new split: option.splits)
  then show "select_flag st' cid (u_id user) \<noteq> None"
    unfolding st'_def r by (simp add: Let_def)
qed

text \<open>
  Claim C6. A flag by an authenticated user who has not flagged the comment before is
  accepted and increments the comment's flag counter. When the counter after the
  increment is 3 (or more), the status of the comment becomes pending, whatever it was;
  when it is below 3, as with the second flag of an approved comment, the status is
  unchanged.
\<close>

theorem flag_threshold:
  "authenticate e token st = Some user \<and> select_comment st cid = Some c \<and>
   select_flag st cid (u_id user) = None \<longrightarrow>
     (let r = flag_route e now url token cid reason st
      in fst r = Json 200 Success \<and>
         flags_of (snd r) cid = Some (c_flags c + 1) \<and>
         (c_flags c + 1 \<ge> 3 \<longrightarrow> status_of (snd r) cid = Some Pending) \<and>
         (c_flags c + 1 < 3 \<longrightarrow> status_of (snd r) cid = Some (c_status c)))"
proof
  assume a: "authenticate e token st = Some user \<and> select_comment st cid = Some c \<and>
   select_flag st cid (u_id user) = None"
  then have au: "authenticate e token st = Some user"
    and c: "select_comment st cid = Some c"
    and nf: "select_flag st cid (u_id user) = None" by simp_all
  have "fst (flag_route e now url token cid reason st) = Json 200 Success"
    by (simp add: flag_route_accepted [OF au c nf])
  then show "let r = flag_route e now url token cid reason st
      in fst r = Json 200 Success \<and>
         flags_of (snd r) cid = Some (c_flags c + 1) \<and>
         (c_flags c + 1 \<ge> 3 \<longrightarrow> status_of (snd r) cid = Some Pending) \<and>
         (c_flags c + 1 < 3 \<longrightarrow> status_of (snd r) cid = Some (c_status c))"
    using flag_route_accepted_fields(1) [OF au c nf, where now = now and url = url and reason = reason]
    by (simp add: Let_def flags_of_def status_of_def)
qed

lemma flag_handler_twice:
  assumes u: "select_user st (u_id user) \<noteq> None"
    and c: "select_comment st cid = Some c"
    and nf: "select_flag st cid (u_id user) = None"
    and id: "u_id user' = u_id user"
  shows "fst (flag_handler now1 cid reason1 user st) = Json 200 Success"
    and "flag_handler now2 cid reason2 user' (snd (flag_handler now1 cid reason1 user st))
         = (Json 400 (Error ''You have already flagged this comment''),
            snd (flag_handler now1 cid reason1 user st))"
    and "flags_of (snd (flag_handler now1 cid reason1 user st)) cid = Some (c_flags c + 1)"
proof -
  let ?row = "\<lparr>f_comment_id = cid, f_user_id = u_id user, f_reason = reason1,
               f_created_at = now1\<rparr>"
  let ?st1 = "st\<lparr>comment_flags := comment_flags st @ [?row]\<rparr>"
  let ?r1 = "flag_handler now1 cid reason1 user st"
  note r = flag_handler_new [OF nf c u, of now1 reason1]
  show "fst ?r1 = Json 200 Success" by (simp add: r)
  have s1: "select_comment ?st1 cid = Some c"
    using c by (simp add: select_comment_def)
  show "flags_of (snd ?r1) cid = Some (c_flags c + 1)"
    by (simp add: r Let_def flags_of_def select_comment_update_comments s1)
  have "find (\<lambda>f. f_comment_id f = cid \<and> f_user_id f = u_id user) (comment_flags st) = None"
    using nf by (simp add: select_flag_def)
  then have "select_flag ?st1 cid (u_id user) = Some ?row"
    by (simp add: select_flag_def find_append_new)
  then have "select_flag (snd ?r1) cid (u_id user') = Some ?row"
    by (simp add: r Let_def id)
  then show "flag_handler now2 cid reason2 user' (snd ?r1)
         = (Json 400 (Error ''You have already flagged this comment''), snd ?r1)"
    by (rule flag_handler_existing)
qed

text \<open>
  Claim C7. The flag handler, run twice for the same comment and the same user (the
  second time with the user row read again, which has the same id), where the user has
  not flagged the comment before: the first call succeeds, the second is answered 400
  with the duplicate message, the flag counter after both calls is one more than
  before, and the state after the rejected call is the state before it.
\<close>

theorem flag_twice:
  "select_user st (u_id user) \<noteq> None \<and> select_comment st cid = Some c \<and>
   select_flag st cid (u_id user) = None \<and> u_id user' = u_id user \<longrightarrow>
     (let r1 = flag_handler now1 cid reason1 user st;
          r2 = flag_handler now2 cid reason2 user' (snd r1)
      in fst r1 = Json 200 Success \<and>
         fst r2 = Json 400 (Error ''You have already flagged this comment'') \<and>
         flags_of st cid = Some (c_flags c) \<and>
         flags_of (snd r1) cid = Some (c_flags c + 1) \<and>
         flags_of (snd r2) cid = Some (c_flags c + 1) \<and>
         snd r2 = snd r1)"
proof
  assume a: "select_user st (u_id user) \<noteq> None \<and> select_comment st cid = Some c \<and>
   select_flag st cid (u_id user) = None \<and> u_id user' = u_id user"
  then have u: "select_user st (u_id user) \<noteq> None"
    and c: "select_comment st cid = Some c"
    and nf: "select_flag st cid (u_id user) = None"
    and id: "u_id user' = u_id user" by simp_all
  note t = flag_handler_twice [OF u c nf id]
  have l0: "flags_of st cid = Some (c_flags c)" by (simp add: flags_of_def c)
  show "let r1 = flag_handler now1 cid reason1 user st;
          r2 = flag_handler now2 cid reason2 user' (snd r1)
      in fst r1 = Json 200 Success \<and>
         fst r2 = Json 400 (Error ''You have already flagged this comment'') \<and>
         flags_of st cid = Some (c_flags c) \<and>
         flags_of (snd r1) cid = Some (c_flags c + 1) \<and>
         flags_of (snd r2) cid = Some (c_flags c + 1) \<and>
         snd r2 = snd r1"
    unfolding Let_def using t(1) t(3) l0 by (simp add: t(2))
qed

lemma restore_likes_count:
  "map ((\<lambda>c. if c_id c = cid then c\<lparr>c_likes := c_likes c - 1\<rparr> else c) \<circ>
        (\<lambda>c. if c_id c = cid then c\<lparr>c_likes := c_likes c + 1\<rparr> else c)) cs = cs"
  by (induction cs) simp_all

lemma delete_absent_like:
  assumes "find (\<lambda>l. l_comment_id l = cid \<and> l_user_id l = uid) ls = None"
  shows "filter (\<lambda>l. l_comment_id l = cid \<longrightarrow> l_user_id l \<noteq> uid) ls = ls"
  using assms by (auto simp: find_None_iff filter_id_conv)

lemma like_route_twice:
  fixes now1 now2 :: int and url :: string
  assumes au: "authenticate e token st = Some user"
    and c: "select_comment st cid = Some c"
    and nl: "select_like st cid (u_id user) = None"
  defines "r1 \<equiv> like_route e now1 url token cid st"
  defines "r2 \<equiv> like_route e now2 url token cid (snd r1)"
  shows "fst r1 = Json 200 (Liked True)"
    and "fst r2 = Json 200 (Liked False)"
    and "snd r2 = update_last_login now2 (u_id user)
                    (update_users (c_user_id c) (\<lambda>u. u\<lparr>u_reputation := u_reputation u + 1\<rparr>)
                       (update_last_login now1 (u_id user) st))"
    and "likes_of (snd r1) cid = Some (c_likes c + 1)"
    and "users (snd r1)
           = users (update_users (c_user_id c) (\<lambda>u. u\<lparr>u_reputation := u_reputation u + 1\<rparr>)
                      (update_last_login now1 (u_id user) st))"
    and "select_like (snd r1) cid (u_id user) \<noteq> None"
proof -
  let ?L1 = "update_last_login now1 (u_id user) st"
  let ?row = "\<lparr>l_comment_id = cid, l_user_id = u_id user, l_created_at = now1\<rparr>"
  let ?S1 = "update_users (c_user_id c) (\<lambda>u. u\<lparr>u_reputation := u_reputation u + 1\<rparr>)
               (update_comments cid (\<lambda>c. c\<lparr>c_likes := c_likes c + 1\<rparr>)
                  (?L1\<lparr>comment_likes := comment_likes ?L1 @ [?row]\<rparr>))"
  have u: "select_user ?L1 (u_id user) \<noteq> None"
    using authenticated_user(3) [OF au] by simp
  have r1: "r1 = (Json 200 (Liked True), ?S1)"
    unfolding r1_def like_route_def authMiddleware_authenticated [OF au]
    using like_handler_new [of ?L1 cid user c now1] nl c u by simp
  show "fst r1 = Json 200 (Liked True)" by (simp add: r1)
  show "users (snd r1)
           = users (update_users (c_user_id c) (\<lambda>u. u\<lparr>u_reputation := u_reputation u + 1\<rparr>)
                      (update_last_login now1 (u_id user) st))"
    by (simp add: r1)
  have "select_comment (?L1\<lparr>comment_likes := comment_likes ?L1 @ [?row]\<rparr>) cid = Some c"
    using c by (simp add: select_comment_def)
  then show "likes_of (snd r1) cid = Some (c_likes c + 1)"
    by (simp add: r1 likes_of_def select_comment_update_comments)
  have us: "users (snd r1) = map (\<lambda>u. if u_id u = c_user_id c
                                       then u\<lparr>u_reputation := u_reputation u + 1\<rparr> else u)
                               (users ?L1)"
    by (simp add: r1)
  obtain user' where au': "authenticate e token (snd r1) = Some user'"
    and id: "u_id user' = u_id user"
    using authenticate_again [OF au us] by auto
  let ?L2 = "update_last_login now2 (u_id user) ?S1"
  have nl': "find (\<lambda>l. l_comment_id l = cid \<and> l_user_id l = u_id user) (comment_likes st) = None"
    using nl by (simp add: select_like_def)
  show "select_like (snd r1) cid (u_id user) \<noteq> None"
    by (simp add: r1 select_like_def find_append_new nl')
  have "select_like ?L2 cid (u_id user) = Some ?row"
    by (simp add: select_like_def find_append_new nl')
  then have "like_handler now2 cid user' ?L2
               = (Json 200 (Liked False),
                  update_comments cid (\<lambda>c. c\<lparr>c_likes := c_likes c - 1\<rparr>)
                    (delete_like cid (u_id user') ?L2))"
    by (intro like_handler_existing [where l = ?row]) (simp add: id)
  moreover have "r2 = like_handler now2 cid user' (update_last_login now2 (u_id user') (snd r1))"
    unfolding r2_def like_route_def by (rule authMiddleware_authenticated [OF au'])
  ultimately have r2: "r2 = (Json 200 (Liked False),
                       update_comments cid (\<lambda>c. c\<lparr>c_likes := c_likes c - 1\<rparr>)
                         (delete_like cid (u_id user) ?L2))"
    by (simp add: id r1)
  show "fst r2 = Json 200 (Liked False)" by (simp add: r2)
  show "snd r2 = update_last_login now2 (u_id user)
                    (update_users (c_user_id c) (\<lambda>u. u\<lparr>u_reputation := u_reputation u + 1\<rparr>)
                       (update_last_login now1 (u_id user) st))"
    unfolding r2 snd_conv update_last_login_def update_users_def update_comments_def
      delete_like_def
    by (simp add: restore_likes_count delete_absent_like [OF nl'])
qed


lemma sample_auth_bob:
  "authenticate sample_env (Some ''bob'') sample_thread = Some bob"
  "authenticate sample_env (Some ''bob'') thread_one_flag = Some bob"
  "authenticate sample_env (Some ''bob'') thread_two_flags = Some bob"
  by (simp_all add: authenticate_def truthy_value_def truthy_def sample_env_def
      select_active_user_def sample_thread_def thread_one_flag_def thread_two_flags_def
      sample_state_def alice_def bob_def)

lemma sample_thread_rows:
  "select_comment sample_thread 7 = Some sample_comment"
  "select_comment thread_one_flag 7 = Some (sample_comment\<lparr>c_flags := 1\<rparr>)"
  "select_comment thread_two_flags 7 = Some (sample_comment\<lparr>c_flags := 2\<rparr>)"
  "select_flag sample_thread 7 12 = None"
  "select_flag thread_one_flag 7 12 = None"
  "select_flag thread_two_flags 7 12 = None"
  "select_like sample_thread 7 12 = None"
  by (simp_all add: select_comment_def select_flag_def select_like_def sample_thread_def
      thread_one_flag_def thread_two_flags_def sample_state_def sample_comment_def)

lemma bob_id: "u_id bob = 12"
  by (simp add: bob_def)

text \<open>
  Two instances: the approved sample comment with two flags gets its third from \<open>bob\<close>
  and becomes pending; with one flag it gets its second and stays approved.
\<close>

theorem flag_threshold_witness:
  "authenticate sample_env (Some ''bob'') thread_two_flags = Some bob \<and>
   select_flag thread_two_flags 7 (u_id bob) = None \<and>
   status_of thread_two_flags 7 = Some Approved \<and>
   flags_of (snd (flag_route sample_env 100 ''/api/comments/7/flag'' (Some ''bob'') 7 ''abuse''
                    thread_two_flags)) 7 = Some 3 \<and>
   status_of (snd (flag_route sample_env 100 ''/api/comments/7/flag'' (Some ''bob'') 7 ''abuse''
                     thread_two_flags)) 7 = Some Pending \<and>
   flags_of (snd (flag_route sample_env 100 ''/api/comments/7/flag'' (Some ''bob'') 7 ''abuse''
                    thread_one_flag)) 7 = Some 2 \<and>
   status_of (snd (flag_route sample_env 100 ''/api/comments/7/flag'' (Some ''bob'') 7 ''abuse''
                     thread_one_flag)) 7 = Some Approved"
proof -
  have h2: "authenticate sample_env (Some ''bob'') thread_two_flags = Some bob \<and>
            select_comment thread_two_flags 7 = Some (sample_comment\<lparr>c_flags := 2\<rparr>) \<and>
            select_flag thread_two_flags 7 (u_id bob) = None"
    by (simp add: sample_auth_bob sample_thread_rows bob_id)
  have h1: "authenticate sample_env (Some ''bob'') thread_one_flag = Some bob \<and>
            select_comment thread_one_flag 7 = Some (sample_comment\<lparr>c_flags := 1\<rparr>) \<and>
            select_flag thread_one_flag 7 (u_id bob) = None"
    by (simp add: sample_auth_bob sample_thread_rows bob_id)
  have s: "status_of thread_two_flags 7 = Some Approved"
    by (simp add: status_of_def sample_thread_rows sample_comment_def)
  from flag_threshold [of sample_env "Some ''bob''" thread_two_flags bob 7
         "sample_comment\<lparr>c_flags := 2\<rparr>" 100 "''/api/comments/7/flag''" "''abuse''"] h2
  have two: "flags_of (snd (flag_route sample_env 100 ''/api/comments/7/flag'' (Some ''bob'') 7
                ''abuse'' thread_two_flags)) 7 = Some 3 \<and>
             status_of (snd (flag_route sample_env 100 ''/api/comments/7/flag'' (Some ''bob'') 7
                ''abuse'' thread_two_flags)) 7 = Some Pending"
    by (simp add: Let_def)
  from flag_threshold [of sample_env "Some ''bob''" thread_one_flag bob 7
         "sample_comment\<lparr>c_flags := 1\<rparr>" 100 "''/api/comments/7/flag''" "''abuse''"] h1
  have one: "flags_of (snd (flag_route sample_env 100 ''/api/comments/7/flag'' (Some ''bob'') 7
                ''abuse'' thread_one_flag)) 7 = Some 2 \<and>
             status_of (snd (flag_route sample_env 100 ''/api/comments/7/flag'' (Some ''bob'') 7
                ''abuse'' thread_one_flag)) 7 = Some Approved"
    by (simp add: Let_def sample_comment_def)
  from h2 s two one show ?thesis by blast
qed

lemma sample_not_flagged: "select_flag sample_thread 7 (u_id bob) = None"
  by (simp add: sample_thread_rows bob_id)

lemma sample_not_liked: "select_like sample_thread 7 (u_id bob) = None"
  by (simp add: sample_thread_rows bob_id)

lemma sample_bob_row: "select_user sample_thread (u_id bob) \<noteq> None"
  by (simp add: select_user_def sample_thread_def sample_state_def alice_def bob_def)

text \<open>
  An instance: the handler runs for \<open>bob\<close> on the sample comment at times 100 and 200;
  the counter goes from 0 to 1 and the second call changes nothing.
\<close>

theorem flag_twice_witness:
  "select_user sample_thread (u_id bob) \<noteq> None \<and>
   select_comment sample_thread 7 = Some sample_comment \<and>
   select_flag sample_thread 7 (u_id bob) = None \<and>
   flags_of sample_thread 7 = Some 0 \<and>
   fst (flag_handler 100 7 ''abuse'' bob sample_thread) = Json 200 Success \<and>
   fst (flag_handler 200 7 ''abuse'' bob flagged_by_bob)
     = Json 400 (Error ''You have already flagged this comment'') \<and>
   flags_of (snd (flag_handler 200 7 ''abuse'' bob flagged_by_bob)) 7 = Some 1 \<and>
   snd (flag_handler 200 7 ''abuse'' bob flagged_by_bob) = flagged_by_bob"
proof -
  have h: "select_user sample_thread (u_id bob) \<noteq> None \<and>
           select_comment sample_thread 7 = Some sample_comment \<and>
           select_flag sample_thread 7 (u_id bob) = None \<and> u_id bob = u_id bob"
    by (simp add: sample_bob_row sample_thread_rows sample_not_flagged)
  from flag_twice [of sample_thread bob 7 sample_comment bob 100 "''abuse''" 200 "''abuse''"] h
  have a1: "fst (flag_handler 100 7 ''abuse'' bob sample_thread) = Json 200 Success"
    and a2: "fst (flag_handler 200 7 ''abuse'' bob flagged_by_bob)
             = Json 400 (Error ''You have already flagged this comment'')"
    and a3: "flags_of sample_thread 7 = Some (c_flags sample_comment)"
    and a4: "flags_of (snd (flag_handler 200 7 ''abuse'' bob flagged_by_bob)) 7
             = Some (c_flags sample_comment + 1)"
    and a5: "snd (flag_handler 200 7 ''abuse'' bob flagged_by_bob) = flagged_by_bob"
    unfolding Let_def flagged_by_bob_def by blast+
  have "c_flags sample_comment = 0" by (simp add: sample_comment_def)
  with h a1 a2 a3 a4 a5 show ?thesis by simp
qed

lemma reputation_of_login [simp]:
  "reputation_of (update_last_login now uid st) k = reputation_of st k"
  by (simp add: reputation_of_def update_last_login_def select_user_update_users
      option.map_comp comp_def if_distrib cong: if_cong)

lemma likes_of_frame:
  "comments st' = comments st \<Longrightarrow> likes_of st' k = likes_of st k"
  by (simp add: likes_of_def select_comment_def)

text \<open>
  Claim C8, amended. For an authenticated user who has not liked the comment, two
  successive likes answer \<open>liked: true\<close> and then \<open>liked: false\<close>; the like counter is
  one higher in between and back to its value afterwards, and the like records are
  those of the start. The state after the second call is the state before the first
  except in the users table: the comment's author has one more reputation point, and
  the caller's \<^verbatim>\<open>last_login\<close> has been set by each call.
\<close>

theorem like_toggle:
  "authenticate e token st = Some user \<and> select_comment st cid = Some c \<and>
   select_like st cid (u_id user) = None \<longrightarrow>
     (let r1 = like_route e now1 url token cid st;
          r2 = like_route e now2 url token cid (snd r1)
      in fst r1 = Json 200 (Liked True) \<and>
         fst r2 = Json 200 (Liked False) \<and>
         likes_of (snd r1) cid = Some (c_likes c + 1) \<and>
         likes_of (snd r2) cid = likes_of st cid \<and>
         comment_likes (snd r2) = comment_likes st \<and>
         snd r2 = update_last_login now2 (u_id user)
                    (update_users (c_user_id c) (\<lambda>u. u\<lparr>u_reputation := u_reputation u + 1\<rparr>)
                       (update_last_login now1 (u_id user) st)))"
proof
  assume a: "authenticate e token st = Some user \<and> select_comment st cid = Some c \<and>
   select_like st cid (u_id user) = None"
  then have au: "authenticate e token st = Some user"
    and c: "select_comment st cid = Some c"
    and nl: "select_like st cid (u_id user) = None" by simp_all
  let ?r1 = "like_route e now1 url token cid st"
  let ?r2 = "like_route e now2 url token cid (snd ?r1)"
  let ?T = "update_last_login now2 (u_id user)
              (update_users (c_user_id c) (\<lambda>u. u\<lparr>u_reputation := u_reputation u + 1\<rparr>)
                 (update_last_login now1 (u_id user) st))"
  note t = like_route_twice [OF au c nl]
  have s2: "snd ?r2 = ?T" by (rule t(3))
  have l2: "likes_of (snd ?r2) cid = likes_of st cid"
    unfolding s2 by (rule likes_of_frame) simp
  have k2: "comment_likes (snd ?r2) = comment_likes st"
    unfolding s2 by simp
  show "let r1 = like_route e now1 url token cid st;
          r2 = like_route e now2 url token cid (snd r1)
      in fst r1 = Json 200 (Liked True) \<and>
         fst r2 = Json 200 (Liked False) \<and>
         likes_of (snd r1) cid = Some (c_likes c + 1) \<and>
         likes_of (snd r2) cid = likes_of st cid \<and>
         comment_likes (snd r2) = comment_likes st \<and>
         snd r2 = update_last_login now2 (u_id user)
                    (update_users (c_user_id c) (\<lambda>u. u\<lparr>u_reputation := u_reputation u + 1\<rparr>)
                       (update_last_login now1 (u_id user) st))"
    unfolding Let_def using t(1) t(2) t(4) l2 k2 s2 by blast
qed

text \<open>
  Claim C9. For an authenticated user who has not liked the comment, whose author has
  reputation \<open>rep\<close>: the like credits the author, so the reputation is \<open>rep + 1\<close>
  after the first call, and the unlike does not take the credit back, so it is still
  \<open>rep + 1\<close> after the second call, while the like counter is back to the value it had
  before the pair.
\<close>

theorem like_unlike_keeps_credit:
  "authenticate e token st = Some user \<and> select_comment st cid = Some c \<and>
   select_like st cid (u_id user) = None \<and> reputation_of st (c_user_id c) = Some rep \<longrightarrow>
     (let r1 = like_route e now1 url token cid st;
          r2 = like_route e now2 url token cid (snd r1)
      in fst r1 = Json 200 (Liked True) \<and>
         fst r2 = Json 200 (Liked False) \<and>
         reputation_of (snd r1) (c_user_id c) = Some (rep + 1) \<and>
         reputation_of (snd r2) (c_user_id c) = Some (rep + 1) \<and>
         likes_of st cid = Some (c_likes c) \<and>
         likes_of (snd r1) cid = Some (c_likes c + 1) \<and>
         likes_of (snd r2) cid = Some (c_likes c))"
proof
  assume a: "authenticate e token st = Some user \<and> select_comment st cid = Some c \<and>
   select_like st cid (u_id user) = None \<and> reputation_of st (c_user_id c) = Some rep"
  then have au: "authenticate e token st = Some user"
    and c: "select_comment st cid = Some c"
    and nl: "select_like st cid (u_id user) = None"
    and rp: "reputation_of st (c_user_id c) = Some rep" by simp_all
  let ?r1 = "like_route e now1 url token cid st"
  let ?r2 = "like_route e now2 url token cid (snd ?r1)"
  note t = like_route_twice [OF au c nl]
  have s2: "snd ?r2 = update_last_login now2 (u_id user)
              (update_users (c_user_id c) (\<lambda>u. u\<lparr>u_reputation := u_reputation u + 1\<rparr>)
                 (update_last_login now1 (u_id user) st))" by (rule t(3))
  have rep2: "reputation_of (snd ?r2) (c_user_id c) = Some (rep + 1)"
    unfolding s2 by (simp add: reputation_of_credit rp)
  have "reputation_of (snd ?r1) (c_user_id c)
        = reputation_of (update_users (c_user_id c)
            (\<lambda>u. u\<lparr>u_reputation := u_reputation u + 1\<rparr>)
            (update_last_login now1 (u_id user) st)) (c_user_id c)"
    by (rule reputation_of_frame) (rule t(5))
  then have rep1: "reputation_of (snd ?r1) (c_user_id c) = Some (rep + 1)"
    by (simp add: reputation_of_credit rp)
  have l0: "likes_of st cid = Some (c_likes c)" by (simp add: likes_of_def c)
  have "likes_of (snd ?r2) cid = likes_of st cid"
    unfolding s2 by (rule likes_of_frame) simp
  then have l2: "likes_of (snd ?r2) cid = Some (c_likes c)" by (simp add: l0)
  show "let r1 = like_route e now1 url token cid st;
          r2 = like_route e now2 url token cid (snd r1)
      in fst r1 = Json 200 (Liked True) \<and>
         fst r2 = Json 200 (Liked False) \<and>
         reputation_of (snd r1) (c_user_id c) = Some (rep + 1) \<and>
         reputation_of (snd r2) (c_user_id c) = Some (rep + 1) \<and>
         likes_of st cid = Some (c_likes c) \<and>
         likes_of (snd r1) cid = Some (c_likes c + 1) \<and>
         likes_of (snd r2) cid = Some (c_likes c)"
    unfolding Let_def using t(1) t(2) t(4) rep1 rep2 l0 l2 by blast
qed


lemma sample_thread_author:
  "c_user_id sample_comment = 11" "c_likes sample_comment = 0"
  "reputation_of sample_thread 11 = Some 0" "likes_of sample_thread 7 = Some 0"
  "comment_likes sample_thread = []"
  by (simp_all add: sample_comment_def reputation_of_def likes_of_def select_user_def
      select_comment_def sample_thread_def sample_state_def alice_def)

lemma unliked_by_bob:
  "snd (like_route sample_env 200 ''/api/comments/7/like'' (Some ''bob'') 7 liked_by_bob)
   = update_last_login 200 12
       (update_users 11 (\<lambda>u. u\<lparr>u_reputation := u_reputation u + 1\<rparr>)
          (update_last_login 100 12 sample_thread))"
  unfolding liked_by_bob_def
  using like_route_twice(3) [OF sample_auth_bob(1) sample_thread_rows(1) sample_not_liked]
  by (simp add: bob_id sample_thread_author)

lemma unliked_by_bob_rows:
  "authenticate sample_env (Some ''bob'')
     (update_last_login 200 12
        (update_users 11 (\<lambda>u. u\<lparr>u_reputation := u_reputation u + 1\<rparr>)
           (update_last_login 100 12 sample_thread)))
   = Some (bob\<lparr>u_last_login := Some 200\<rparr>)"
  "select_comment
     (update_last_login 200 12
        (update_users 11 (\<lambda>u. u\<lparr>u_reputation := u_reputation u + 1\<rparr>)
           (update_last_login 100 12 sample_thread))) 7 = Some sample_comment"
  "select_like
     (update_last_login 200 12
        (update_users 11 (\<lambda>u. u\<lparr>u_reputation := u_reputation u + 1\<rparr>)
           (update_last_login 100 12 sample_thread))) 7 (u_id (bob\<lparr>u_last_login := Some 200\<rparr>))
   = None"
proof -
  show "authenticate sample_env (Some ''bob'')
     (update_last_login 200 12
        (update_users 11 (\<lambda>u. u\<lparr>u_reputation := u_reputation u + 1\<rparr>)
           (update_last_login 100 12 sample_thread)))
   = Some (bob\<lparr>u_last_login := Some 200\<rparr>)"
    unfolding update_last_login_def
    by (simp add: authenticate_update_users sample_auth_bob bob_id)
  show "select_comment
     (update_last_login 200 12
        (update_users 11 (\<lambda>u. u\<lparr>u_reputation := u_reputation u + 1\<rparr>)
           (update_last_login 100 12 sample_thread))) 7 = Some sample_comment"
    by (simp add: sample_thread_rows)
  show "select_like
     (update_last_login 200 12
        (update_users 11 (\<lambda>u. u\<lparr>u_reputation := u_reputation u + 1\<rparr>)
           (update_last_login 100 12 sample_thread))) 7 (u_id (bob\<lparr>u_last_login := Some 200\<rparr>))
   = None"
    by (simp add: sample_thread_rows bob_id)
qed

text \<open>
  Claim C8 says that, for every comment and user, the second of two successive likes
  answers \<open>liked: false\<close> and that the state is then what it was before the first. Both
  fail on the sample thread. When \<open>bob\<close> has already liked the comment, his next call
  answers \<open>liked: false\<close> and the one after it \<open>liked: true\<close>. And after his like and
  unlike of the comment of \<open>alice\<close>, her reputation is 1 where it was 0, so the state is
  not the one before the first call.
\<close>

theorem like_toggle_counterexample:
  "select_like liked_by_bob 7 12 \<noteq> None \<and>
   fst (like_route sample_env 200 ''/api/comments/7/like'' (Some ''bob'') 7 liked_by_bob)
     = Json 200 (Liked False) \<and>
   fst (like_route sample_env 300 ''/api/comments/7/like'' (Some ''bob'') 7
          (snd (like_route sample_env 200 ''/api/comments/7/like'' (Some ''bob'') 7 liked_by_bob)))
     = Json 200 (Liked True) \<and>
   reputation_of sample_thread 11 = Some 0 \<and>
   reputation_of
     (snd (like_route sample_env 200 ''/api/comments/7/like'' (Some ''bob'') 7 liked_by_bob)) 11
     = Some 1 \<and>
   snd (like_route sample_env 200 ''/api/comments/7/like'' (Some ''bob'') 7 liked_by_bob)
     \<noteq> sample_thread"
proof -
  let ?r2 = "like_route sample_env 200 ''/api/comments/7/like'' (Some ''bob'') 7 liked_by_bob"
  note t = like_route_twice [OF sample_auth_bob(1) sample_thread_rows(1) sample_not_liked]
  have liked: "select_like liked_by_bob 7 12 \<noteq> None"
    unfolding liked_by_bob_def using t(6) by (simp add: bob_id)
  have second: "fst ?r2 = Json 200 (Liked False)"
    unfolding liked_by_bob_def by (rule t(2))
  have third: "fst (like_route sample_env 300 ''/api/comments/7/like'' (Some ''bob'') 7 (snd ?r2))
               = Json 200 (Liked True)"
    unfolding unliked_by_bob
    by (rule like_route_twice(1) [OF unliked_by_bob_rows])
  have rep: "reputation_of (snd ?r2) 11 = Some 1"
    unfolding unliked_by_bob
    by (simp add: reputation_of_credit sample_thread_author)
  have rep0: "reputation_of sample_thread 11 = Some 0" by (rule sample_thread_author)
  from rep rep0 have "snd ?r2 \<noteq> sample_thread" by auto
  with liked second third rep rep0 show ?thesis by blast
qed

text \<open>
  An instance: \<open>bob\<close> likes and unlikes the sample comment at times 100 and 200.
\<close>

theorem like_toggle_witness:
  "authenticate sample_env (Some ''bob'') sample_thread = Some bob \<and>
   select_comment sample_thread 7 = Some sample_comment \<and>
   select_like sample_thread 7 (u_id bob) = None \<and>
   fst (like_route sample_env 100 ''/api/comments/7/like'' (Some ''bob'') 7 sample_thread)
     = Json 200 (Liked True) \<and>
   fst (like_route sample_env 200 ''/api/comments/7/like'' (Some ''bob'') 7 liked_by_bob)
     = Json 200 (Liked False) \<and>
   likes_of liked_by_bob 7 = Some 1 \<and>
   likes_of (snd (like_route sample_env 200 ''/api/comments/7/like'' (Some ''bob'') 7
                    liked_by_bob)) 7 = Some 0 \<and>
   comment_likes (snd (like_route sample_env 200 ''/api/comments/7/like'' (Some ''bob'') 7
                         liked_by_bob)) = []"
proof -
  have h: "authenticate sample_env (Some ''bob'') sample_thread = Some bob \<and>
           select_comment sample_thread 7 = Some sample_comment \<and>
           select_like sample_thread 7 (u_id bob) = None"
    by (simp add: sample_auth_bob sample_thread_rows bob_id)
  from like_toggle [of sample_env "Some ''bob''" sample_thread bob 7 sample_comment
         100 "''/api/comments/7/like''" 200] h
  have a1: "fst (like_route sample_env 100 ''/api/comments/7/like'' (Some ''bob'') 7 sample_thread)
            = Json 200 (Liked True)"
    and a2: "fst (like_route sample_env 200 ''/api/comments/7/like'' (Some ''bob'') 7 liked_by_bob)
             = Json 200 (Liked False)"
    and a3: "likes_of liked_by_bob 7 = Some (c_likes sample_comment + 1)"
    and a4: "likes_of (snd (like_route sample_env 200 ''/api/comments/7/like'' (Some ''bob'') 7
                              liked_by_bob)) 7 = likes_of sample_thread 7"
    and a5: "comment_likes (snd (like_route sample_env 200 ''/api/comments/7/like'' (Some ''bob'') 7
                                   liked_by_bob)) = comment_likes sample_thread"
    unfolding Let_def liked_by_bob_def by blast+
  from h a1 a2 a3 a4 a5 show ?thesis by (simp add: sample_thread_author)
qed

text \<open>
  An instance: after the like and unlike of \<open>bob\<close>, the author \<open>alice\<close> has
  reputation 1 instead of 0 and the comment has 0 likes as before.
\<close>

theorem like_unlike_keeps_credit_witness:
  "authenticate sample_env (Some ''bob'') sample_thread = Some bob \<and>
   select_like sample_thread 7 (u_id bob) = None \<and>
   reputation_of sample_thread (c_user_id sample_comment) = Some 0 \<and>
   likes_of sample_thread 7 = Some 0 \<and>
   reputation_of
     (snd (like_route sample_env 200 ''/api/comments/7/like'' (Some ''bob'') 7 liked_by_bob))
     (c_user_id sample_comment) = Some 1 \<and>
   likes_of
     (snd (like_route sample_env 200 ''/api/comments/7/like'' (Some ''bob'') 7 liked_by_bob)) 7
     = Some 0"
proof -
  have h: "authenticate sample_env (Some ''bob'') sample_thread = Some bob \<and>
           select_comment sample_thread 7 = Some sample_comment \<and>
           select_like sample_thread 7 (u_id bob) = None \<and>
           reputation_of sample_thread (c_user_id sample_comment) = Some 0"
    by (simp add: sample_auth_bob sample_thread_rows bob_id sample_thread_author)
  from like_unlike_keeps_credit [of sample_env "Some ''bob''" sample_thread bob 7 sample_comment 0
         100 "''/api/comments/7/like''" 200] h
  have a1: "reputation_of
              (snd (like_route sample_env 200 ''/api/comments/7/like'' (Some ''bob'') 7 liked_by_bob))
              (c_user_id sample_comment) = Some (0 + 1)"
    and a2: "likes_of
              (snd (like_route sample_env 200 ''/api/comments/7/like'' (Some ''bob'') 7 liked_by_bob)) 7
             = Some (c_likes sample_comment)"
    unfolding Let_def liked_by_bob_def by blast+
  from h a1 a2 show ?thesis by (simp add: sample_thread_author)
qed

end
